theory Spec2Isabelle
  imports Complex_Main "HOL-Library.AList" "HOL-Library.Word" "HOL-Library.Log_Nat"
begin

unbundle bit_operations_syntax

section \<open>Python values\<close>

text \<open>
  A Python \<open>str\<close> is a sequence of Unicode code points, a \<open>bytes\<close> object a sequence of
  bytes. The literals of the source are ASCII and are written through \<open>py\<close>.
\<close>

type_synonym pystr = "nat list"
type_synonym bytes = "char list"

definition py :: "string \<Rightarrow> pystr" where
  "py s = map of_char s"

text \<open>The exceptions that the modelled code can raise; every one of them is raised inside a
  library call or a subscript, the source has no \<open>raise\<close> of its own.\<close>

datatype error =
    KeyError | TypeError | ValueError | AttributeError | IndexError
  | OSError | JSONDecodeError | InvalidToken | UnicodeDecodeError

definition bnd :: "error + 'a \<Rightarrow> ('a \<Rightarrow> error + 'b) \<Rightarrow> error + 'b" where
  "bnd m f = (case m of Inl e \<Rightarrow> Inl e | Inr x \<Rightarrow> f x)"

text \<open>
  What \<open>json.load\<close> returns: \<open>None\<close>, a \<open>bool\<close>, an \<open>int\<close>, a \<open>float\<close> (held as the rational
  it denotes; \<open>NaN\<close> and the infinities are left out), a \<open>str\<close>, a \<open>list\<close> or a \<open>dict\<close> with
  string keys. A \<open>dict\<close> keeps its insertion order, so it is an association list.
\<close>

datatype json =
    JNull | JBool bool | JInt int | JFloat rat | JStr pystr
  | JList "json list" | JObj "(pystr \<times> json) list"

text \<open>Truth value of an object in a condition (\<open>if x\<close>, \<open>not x\<close>).\<close>

fun truthy :: "json \<Rightarrow> bool" where
  "truthy JNull = False"
| "truthy (JBool b) = b"
| "truthy (JInt i) = (i \<noteq> 0)"
| "truthy (JFloat r) = (r \<noteq> 0)"
| "truthy (JStr s) = (s \<noteq> [])"
| "truthy (JList xs) = (xs \<noteq> [])"
| "truthy (JObj kvs) = (kvs \<noteq> [])"

text \<open>\<open>d.get(k, default)\<close>: only a \<open>dict\<close> has the method.\<close>

fun dict_get :: "json \<Rightarrow> pystr \<Rightarrow> json \<Rightarrow> error + json" where
  "dict_get (JObj kvs) k dflt = Inr (case map_of kvs k of None \<Rightarrow> dflt | Some v \<Rightarrow> v)"
| "dict_get _ k dflt = Inl AttributeError"

text \<open>\<open>d[k]\<close> with a string \<open>k\<close>: a missing key of a \<open>dict\<close> is a \<open>KeyError\<close>; a \<open>list\<close> or a
  \<open>str\<close> wants an integer index, the other values have no subscript.\<close>

fun getitem :: "json \<Rightarrow> pystr \<Rightarrow> error + json" where
  "getitem (JObj kvs) k = (case map_of kvs k of None \<Rightarrow> Inl KeyError | Some v \<Rightarrow> Inr v)"
| "getitem _ k = Inl TypeError"

text \<open>\<open>d[k] = v\<close> with a string \<open>k\<close>: the value of an existing key is replaced in place, a new
  key goes to the end; only a \<open>dict\<close> accepts it.\<close>

fun setitem :: "json \<Rightarrow> pystr \<Rightarrow> json \<Rightarrow> error + json" where
  "setitem (JObj kvs) k v = Inr (JObj (AList.update k v kvs))"
| "setitem _ k v = Inl TypeError"

text \<open>\<open>k in s\<close> for two strings: \<open>k\<close> occurs in \<open>s\<close> as a contiguous run.\<close>

fun starts_with :: "pystr \<Rightarrow> pystr \<Rightarrow> bool" where
  "starts_with s [] = True"
| "starts_with [] (c # k) = False"
| "starts_with (d # s) (c # k) = (d = c \<and> starts_with s k)"

fun substring_of :: "pystr \<Rightarrow> pystr \<Rightarrow> bool" where
  "substring_of k [] = (k = [])"
| "substring_of k (d # s) = (starts_with (d # s) k \<or> substring_of k s)"

text \<open>\<open>k in c\<close> with a string \<open>k\<close>: a key of a \<open>dict\<close>, an element of a \<open>list\<close>, a substring of a
  \<open>str\<close>; the other values are not iterable.\<close>

fun contains :: "json \<Rightarrow> pystr \<Rightarrow> error + bool" where
  "contains (JObj kvs) k = Inr (k \<in> set (map fst kvs))"
| "contains (JList xs) k = Inr (JStr k \<in> set xs)"
| "contains (JStr s) k = Inr (substring_of k s)"
| "contains _ k = Inl TypeError"

section \<open>Naive datetimes\<close>

text \<open>
  \<open>datetime.datetime.now()\<close> returns a naive datetime: a calendar date and a time of day
  with microseconds, no time zone. The difference of two of them is a \<open>timedelta\<close>, an exact
  number of microseconds, computed from the proleptic Gregorian ordinal of the date.
\<close>

record datetime =
  year :: nat
  month :: nat
  day :: nat
  hour :: nat
  minute :: nat
  second :: nat
  microsecond :: nat

definition is_leap :: "nat \<Rightarrow> bool" where
  "is_leap y = (y mod 4 = 0 \<and> (y mod 100 \<noteq> 0 \<or> y mod 400 = 0))"

definition days_in_month :: "nat \<Rightarrow> nat \<Rightarrow> nat" where
  "days_in_month y m =
     (if m = 2 then (if is_leap y then 29 else 28)
      else if m = 4 \<or> m = 6 \<or> m = 9 \<or> m = 11 then 30 else 31)"

definition days_before_year :: "nat \<Rightarrow> nat" where
  "days_before_year y = (y - 1) * 365 + (y - 1) div 4 - (y - 1) div 100 + (y - 1) div 400"

fun days_before_month :: "nat \<Rightarrow> nat \<Rightarrow> nat" where
  "days_before_month y 0 = 0"
| "days_before_month y (Suc 0) = 0"
| "days_before_month y (Suc (Suc m)) = days_before_month y (Suc m) + days_in_month y (Suc m)"

definition toordinal :: "datetime \<Rightarrow> nat" where
  "toordinal d = days_before_year (year d) + days_before_month (year d) (month d) + day d"

definition valid_datetime :: "datetime \<Rightarrow> bool" where
  "valid_datetime d =
     (1 \<le> year d \<and> year d \<le> 9999 \<and> 1 \<le> month d \<and> month d \<le> 12
      \<and> 1 \<le> day d \<and> day d \<le> days_in_month (year d) (month d)
      \<and> hour d < 24 \<and> minute d < 60 \<and> second d < 60 \<and> microsecond d < 1000000)"

text \<open>The position of a datetime on the time line, in microseconds.\<close>

definition to_us :: "datetime \<Rightarrow> int" where
  "to_us d =
     (int (toordinal d) * 86400 + int (hour d) * 3600 + int (minute d) * 60 + int (second d))
       * 1000000 + int (microsecond d)"

text \<open>\<open>a - b\<close> on datetimes, as the microseconds of the resulting \<open>timedelta\<close>.\<close>

definition dt_sub :: "datetime \<Rightarrow> datetime \<Rightarrow> int" where
  "dt_sub a b = to_us a - to_us b"

text \<open>
  A Python \<open>float\<close> is an IEEE 754 binary64 number: 53 significant bits, and every operation
  rounds its exact result to the nearest such number, a tie going to the even significand.
  \<open>binade x\<close> is the exponent \<open>e\<close> with \<open>2^e \<le> x < 2^(e+1)\<close> of a positive \<open>x\<close>, and the floats of
  that range are the multiples of \<open>2^(e-52)\<close>. Overflow (from \<open>2^1024\<close> on) and the subnormal
  numbers (below \<open>2^-1022\<close>) are not modelled: the seconds of a \<open>timedelta\<close> are zero or
  between \<open>10^-6\<close> and \<open>10^14\<close>.
\<close>

definition round_half_even :: "rat \<Rightarrow> int" where
  "round_half_even y =
     (let f = \<lfloor>y\<rfloor>; r = y - of_int f
      in if r < 1 / 2 then f else if 1 / 2 < r then f + 1 else if even f then f else f + 1)"

definition binade :: "rat \<Rightarrow> int" where
  "binade x = (if 1 \<le> x then bitlen \<lfloor>x\<rfloor> - 1 else - bitlen (\<lceil>1 / x\<rceil> - 1))"

definition round_double :: "rat \<Rightarrow> rat" where
  "round_double x =
     (if x = 0 then 0
      else let q = 2 powi (binade \<bar>x\<bar> - 52)
           in sgn x * q * of_int (round_half_even (\<bar>x\<bar> / q)))"

text \<open>\<open>timedelta.total_seconds()\<close>: the microseconds divided by \<open>10**6\<close>, a true division of
  two integers, whose result is the exact quotient rounded to a \<open>float\<close>.\<close>

definition total_seconds :: "int \<Rightarrow> rat" where
  "total_seconds us = round_double (of_int us / 1000000)"

text \<open>\<open>x < v\<close> for a \<open>float\<close> \<open>x\<close>: numbers compare by value (\<open>True\<close> is 1, \<open>False\<close> is 0), any
  other right-hand side is a \<open>TypeError\<close>.\<close>

fun float_less :: "rat \<Rightarrow> json \<Rightarrow> error + bool" where
  "float_less x (JInt i) = Inr (x < of_int i)"
| "float_less x (JFloat r) = Inr (x < r)"
| "float_less x (JBool b) = Inr (x < (if b then 1 else 0))"
| "float_less x _ = Inl TypeError"

section \<open>The libraries the program calls\<close>

text \<open>
  The program calls into \<open>hashlib\<close>, \<open>cryptography.fernet\<close>, the UTF-8 codec of \<open>str\<close> and
  \<open>bytes\<close>, and \<open>datetime.fromisoformat\<close>. None of them is part of the repository; they are
  parameters of the model.
  \<^item> \<open>sha256\<close>: the SHA-256 digest of a byte string.
  \<^item> \<open>utf8_encode\<close>: \<open>str.encode()\<close>. It is total here: strings with lone surrogates, on
    which the codec raises, are left out.
  \<^item> \<open>utf8_decode\<close>: \<open>bytes.decode()\<close>, which raises on bytes that are not UTF-8.
  \<^item> \<open>key_ok\<close>: whether \<open>Fernet(key)\<close> accepts the key; it raises \<open>ValueError\<close> otherwise.
  \<^item> \<open>fernet_encrypt key entropy data\<close>: \<open>Fernet(key).encrypt(data)\<close>, where \<open>entropy\<close> is the
    current time and the random initialisation vector that the call draws.
  \<^item> \<open>fernet_decrypt key token\<close>: \<open>Fernet(key).decrypt(token)\<close>, which raises \<open>InvalidToken\<close>.
  \<^item> \<open>fromisoformat\<close>: \<open>datetime.datetime.fromisoformat\<close> on a \<open>str\<close>, which raises
    \<open>ValueError\<close>; only naive results are modelled.
\<close>

record pylib =
  sha256 :: "bytes \<Rightarrow> 256 word"
  utf8_encode :: "pystr \<Rightarrow> bytes"
  utf8_decode :: "bytes \<Rightarrow> error + pystr"
  key_ok :: "bytes \<Rightarrow> bool"
  fernet_encrypt :: "bytes \<Rightarrow> bytes \<Rightarrow> bytes \<Rightarrow> bytes"
  fernet_decrypt :: "bytes \<Rightarrow> bytes \<Rightarrow> error + bytes"
  fromisoformat :: "pystr \<Rightarrow> error + datetime"

text \<open>\<open>hexdigest()\<close>: the 32 bytes of the digest as 64 lowercase hexadecimal digits.\<close>

definition hex_digit :: "nat \<Rightarrow> nat" where
  "hex_digit n = (if n < 10 then 48 + n else 87 + n)"

definition hexdigest :: "256 word \<Rightarrow> pystr" where
  "hexdigest w = map (\<lambda>i. hex_digit (unat (drop_bit (4 * (63 - i)) w AND 15))) [0..<64]"

section \<open>Keys of the documents\<close>

definition k_password_protected :: pystr where
  "k_password_protected = py ''password_protected''"

definition k_password_hash :: pystr where
  "k_password_hash = py ''password_hash''"

definition k_password_timeout :: pystr where
  "k_password_timeout = py ''password_timeout''"

definition k_title :: pystr where
  "k_title = py ''title''"

definition k_content :: pystr where
  "k_content = py ''content''"

definition k_created :: pystr where
  "k_created = py ''created''"

definition k_updated :: pystr where
  "k_updated = py ''updated''"

definition k_read_only :: pystr where
  "k_read_only = py ''read_only''"

section \<open>Files\<close>

text \<open>
  A JSON file is absent, present but not openable (\<open>open\<close> raises \<open>OSError\<close>), present with
  a text that \<open>json.load\<close> rejects, or present with a text that \<open>json.load\<close> turns into a
  value. \<open>json.dump\<close> followed by \<open>json.load\<close> returns the value dumped (strings, booleans,
  lists and dictionaries with string keys), so a file written by \<open>json.dump\<close> is held as the
  value it was written from. Writing a file is taken to succeed.
\<close>

datatype jfile = Absent | Unreadable | Unparsable | Doc json

datatype kfile = KAbsent | KUnreadable | KBytes bytes

section \<open>The application state\<close>

text \<open>A note of \<open>self.notes\<close>: a dictionary with these five keys. \<open>title\<close>, \<open>content\<close> and
  \<open>read_only\<close> hold whatever the notes file held, so they are JSON values.\<close>

record note_record =
  title :: json
  content :: json
  created :: datetime
  updated :: datetime
  read_only :: json

datatype ui_event =
    Dialog string
  | Warning string string
  | Information string string

text \<open>
  The fields of \<open>NotesApp\<close> that the modelled methods read or write, the two widgets whose
  state they consult (the editor with its read-only flag, the password protection toggle
  with its checked state), the three files, and the trace of modal dialogs and message boxes
  shown so far. \<open>dialogs_shown\<close> counts the password dialogs executed.
\<close>

record app =
  "notes" :: "note_record list"
  current_note_index :: "int option"
  key :: bytes
  config :: json
  last_password_entry :: "datetime option"
  text_edit :: pystr
  text_read_only :: bool
  protection_checked :: bool
  config_file :: jfile
  notes_file :: jfile
  key_file :: kfile
  events :: "ui_event list"
  dialogs_shown :: nat

text \<open>The user: the \<open>n\<close>-th password dialog of the session is closed with OK (\<open>True\<close>) or
  with Cancel, and holds the given text in its field.\<close>

type_synonym user = "nat \<Rightarrow> bool \<times> pystr"

definition exec_dialog :: "user \<Rightarrow> string \<Rightarrow> app \<Rightarrow> (bool \<times> pystr) \<times> app" where
  "exec_dialog U ttl st =
     (U (dialogs_shown st),
      st\<lparr>events := events st @ [Dialog ttl], dialogs_shown := Suc (dialogs_shown st)\<rparr>)"

definition warning :: "string \<Rightarrow> string \<Rightarrow> app \<Rightarrow> app" where
  "warning ttl msg st = st\<lparr>events := events st @ [Warning ttl msg]\<rparr>"

definition information :: "string \<Rightarrow> string \<Rightarrow> app \<Rightarrow> app" where
  "information ttl msg st = st\<lparr>events := events st @ [Information ttl msg]\<rparr>"

section \<open>Configuration and password\<close>

definition default_items :: "(pystr \<times> json) list" where
  "default_items =
     [(k_password_protected, JBool False), (k_password_hash, JStr []),
      (k_password_timeout, JInt 60)]"

definition default_config :: json where
  "default_config = JObj default_items"

text \<open>The body of the loop \<open>for key in default_config\<close>.\<close>

fun fill_defaults :: "json \<Rightarrow> (pystr \<times> json) list \<Rightarrow> error + json" where
  "fill_defaults cfg [] = Inr cfg"
| "fill_defaults cfg ((k, v) # kvs) =
     bnd (contains cfg k) (\<lambda>present.
       if \<not> present then bnd (setitem cfg k v) (\<lambda>cfg'. fill_defaults cfg' kvs)
       else fill_defaults cfg kvs)"

text \<open>The \<open>try\<close> block of \<open>load_config\<close>.\<close>

fun load_config_try :: "jfile \<Rightarrow> error + json" where
  "load_config_try Absent = Inl OSError"
| "load_config_try Unreadable = Inl OSError"
| "load_config_try Unparsable = Inl JSONDecodeError"
| "load_config_try (Doc cfg) = fill_defaults cfg default_items"

definition load_config :: "jfile \<Rightarrow> error + json" where
  "load_config f =
     (if f = Absent then Inr default_config
      else case load_config_try f of Inl e \<Rightarrow> Inr default_config | Inr cfg \<Rightarrow> Inr cfg)"

definition save_config :: "app \<Rightarrow> app" where
  "save_config st = st\<lparr>config_file := Doc (config st)\<rparr>"

definition hash_password :: "pylib \<Rightarrow> pystr \<Rightarrow> pystr" where
  "hash_password L password = hexdigest (sha256 L (utf8_encode L password))"

definition is_password_valid :: "app \<Rightarrow> datetime \<Rightarrow> error + bool" where
  "is_password_valid st now =
     bnd (dict_get (config st) k_password_protected (JBool False)) (\<lambda>protected.
       if \<not> truthy protected then Inr True
       else case last_password_entry st of
         None \<Rightarrow> Inr False
       | Some entry \<Rightarrow>
           bnd (dict_get (config st) k_password_timeout (JInt 60)) (\<lambda>timeout.
             bnd (float_less (total_seconds (dt_sub now entry)) timeout) (\<lambda>in_time.
               if in_time then Inr True else Inr False)))"

text \<open>\<open>check_password\<close>: \<open>now\<close> is the clock when the timeout is checked, \<open>now'\<close> the clock
  when the dialog has been accepted with the right password.\<close>

definition check_password ::
  "pylib \<Rightarrow> user \<Rightarrow> app \<Rightarrow> datetime \<Rightarrow> datetime \<Rightarrow> error + (bool \<times> app)" where
  "check_password L U st now now' =
     bnd (is_password_valid st now) (\<lambda>valid.
       if valid then Inr (True, st)
       else case exec_dialog U ''Password Required'' st of
         ((accepted, pwd), st1) \<Rightarrow>
           if accepted then
             bnd (dict_get (config st1) k_password_hash (JStr [])) (\<lambda>stored.
               if JStr (hash_password L pwd) = stored
               then Inr (True, st1\<lparr>last_password_entry := Some now'\<rparr>)
               else Inr (False,
                 warning ''Incorrect Password'' ''The password you entered is incorrect.'' st1))
           else Inr (False, st1))"

text \<open>
  \<open>onPasswordProtectionToggled\<close> is connected to the \<open>toggled\<close> signal of the password
  protection toggle, and \<open>setChecked\<close> emits that signal when it changes the state of the
  button, so a \<open>setChecked\<close> inside a handler runs the handler again before it returns.
  \<open>toggled_off\<close> is the handler called with \<open>checked = False\<close>, \<open>enable_protection\<close> the end of
  the handler called with \<open>checked = True\<close>.
\<close>

definition toggled_off :: "app \<Rightarrow> error + app" where
  "toggled_off st =
     bnd (setitem (config st) k_password_protected (JBool False)) (\<lambda>cfg.
       Inr (save_config (st\<lparr>config := cfg\<rparr>)))"

definition setChecked_False :: "app \<Rightarrow> error + app" where
  "setChecked_False st =
     (if protection_checked st then toggled_off (st\<lparr>protection_checked := False\<rparr>)
      else Inr st)"

definition enable_protection :: "app \<Rightarrow> error + app" where
  "enable_protection st =
     bnd (setitem (config st) k_password_protected (JBool True)) (\<lambda>cfg.
       Inr (save_config (st\<lparr>config := cfg\<rparr>)))"

definition onPasswordProtectionToggled :: "pylib \<Rightarrow> user \<Rightarrow> bool \<Rightarrow> app \<Rightarrow> error + app" where
  "onPasswordProtectionToggled L U checked st =
     (if checked then
        bnd (dict_get (config st) k_password_hash JNull) (\<lambda>stored.
          if \<not> truthy stored then
            case exec_dialog U ''Set Password'' st of
              ((accepted, pwd), st1) \<Rightarrow>
                if accepted then
                  if pwd = [] then setChecked_False st1
                  else case exec_dialog U ''Confirm Password'' st1 of
                    ((accepted', pwd'), st2) \<Rightarrow>
                      if accepted' then
                        if pwd \<noteq> pwd' then
                          setChecked_False
                            (warning ''Password Mismatch'' ''The passwords do not match.'' st2)
                        else
                          bnd (setitem (config st2) k_password_hash (JStr (hash_password L pwd)))
                            (\<lambda>cfg. enable_protection (st2\<lparr>config := cfg\<rparr>))
                      else enable_protection st2
                else setChecked_False st1
          else enable_protection st)
      else toggled_off st)"

text \<open>\<open>passwordProtectionToggle.setChecked(True)\<close>.\<close>

definition setChecked_True :: "pylib \<Rightarrow> user \<Rightarrow> app \<Rightarrow> error + app" where
  "setChecked_True L U st =
     (if protection_checked st then Inr st
      else onPasswordProtectionToggled L U True (st\<lparr>protection_checked := True\<rparr>))"

text \<open>The first part of \<open>onChangePasswordClicked\<close>: whether the method goes on to ask for the
  new password, and the state at that point.\<close>

definition verify_current :: "pylib \<Rightarrow> user \<Rightarrow> json \<Rightarrow> app \<Rightarrow> bool \<times> app" where
  "verify_current L U stored st =
     (if truthy stored then
        case exec_dialog U ''Verify Password'' st of
          ((accepted, old), st1) \<Rightarrow>
            if \<not> accepted then (False, st1)
            else if JStr (hash_password L old) \<noteq> stored
              then (False, warning ''Incorrect Password'' ''Current password is incorrect.'' st1)
              else (True, st1)
      else (True, st))"

definition onChangePasswordClicked :: "pylib \<Rightarrow> user \<Rightarrow> app \<Rightarrow> error + app" where
  "onChangePasswordClicked L U st =
     bnd (dict_get (config st) k_password_hash JNull) (\<lambda>stored.
       case verify_current L U stored st of
         (proceed, st1) \<Rightarrow>
           if \<not> proceed then Inr st1
           else case exec_dialog U ''New Password'' st1 of
             ((accepted, new), st2) \<Rightarrow>
               if \<not> accepted \<or> new = [] then Inr st2
               else case exec_dialog U ''Confirm Password'' st2 of
                 ((accepted', confirm), st3) \<Rightarrow>
                   if \<not> accepted' \<or> new \<noteq> confirm
                   then Inr (warning ''Password Mismatch'' ''The passwords do not match.'' st3)
                   else
                     bnd (setitem (config st3) k_password_hash (JStr (hash_password L new)))
                       (\<lambda>cfg. bnd (setitem cfg k_password_protected (JBool True))
                       (\<lambda>cfg'. bnd (setChecked_True L U (st3\<lparr>config := cfg'\<rparr>))
                       (\<lambda>st4. Inr (information ''Password Changed''
                                ''Your password has been updated.'' (save_config st4))))))"

section \<open>The key\<close>

text \<open>\<open>load_key\<close>: \<open>generated\<close> is the key that \<open>Fernet.generate_key()\<close> returns if it is
  called. The result is the value returned or the exception raised, and the key file
  afterwards. Only \<open>FileNotFoundError\<close> is caught.\<close>

fun load_key :: "bytes \<Rightarrow> kfile \<Rightarrow> (error + bytes) \<times> kfile" where
  "load_key generated KAbsent = (Inr generated, KBytes generated)"
| "load_key generated KUnreadable = (Inl OSError, KUnreadable)"
| "load_key generated (KBytes bs) = (Inr bs, KBytes bs)"

definition encrypt_text :: "pylib \<Rightarrow> bytes \<Rightarrow> bytes \<Rightarrow> pystr \<Rightarrow> error + pystr" where
  "encrypt_text L k entropy text =
     (if \<not> key_ok L k then Inl ValueError
      else utf8_decode L (fernet_encrypt L k entropy (utf8_encode L text)))"

definition decrypt_text :: "pylib \<Rightarrow> bytes \<Rightarrow> pystr \<Rightarrow> error + pystr" where
  "decrypt_text L k token =
     (if \<not> key_ok L k then Inl ValueError
      else bnd (fernet_decrypt L k (utf8_encode L token)) (utf8_decode L))"

section \<open>The notes file\<close>

text \<open>\<open>datetime.isoformat()\<close> of a naive datetime: \<open>YYYY-MM-DDTHH:MM:SS\<close>, followed by
  \<open>.ffffff\<close> when the microseconds are not zero. The fields of a datetime object are in
  range (\<open>valid_datetime\<close>), so each fits its width.\<close>

fun dec_digits :: "nat \<Rightarrow> nat \<Rightarrow> pystr" where
  "dec_digits 0 n = []"
| "dec_digits (Suc w) n = dec_digits w (n div 10) @ [48 + n mod 10]"

definition isoformat :: "datetime \<Rightarrow> pystr" where
  "isoformat d =
     dec_digits 4 (year d) @ [45] @ dec_digits 2 (month d) @ [45] @ dec_digits 2 (day d)
     @ [84] @ dec_digits 2 (hour d) @ [58] @ dec_digits 2 (minute d) @ [58]
     @ dec_digits 2 (second d)
     @ (if microsecond d = 0 then [] else [46] @ dec_digits 6 (microsecond d))"

definition note_to_json :: "note_record \<Rightarrow> json" where
  "note_to_json n =
     JObj [(k_title, title n), (k_content, content n),
           (k_created, JStr (isoformat (created n))),
           (k_updated, JStr (isoformat (updated n))),
           (k_read_only, read_only n)]"

definition save_notes_to_file :: "app \<Rightarrow> app" where
  "save_notes_to_file st = st\<lparr>notes_file := Doc (JList (map note_to_json (notes st)))\<rparr>"

text \<open>\<open>datetime.datetime.fromisoformat(v)\<close>: a \<open>TypeError\<close> unless \<open>v\<close> is a \<open>str\<close>.\<close>

fun fromisoformat_json :: "pylib \<Rightarrow> json \<Rightarrow> error + datetime" where
  "fromisoformat_json L (JStr s) = fromisoformat L s"
| "fromisoformat_json L _ = Inl TypeError"

text \<open>The dictionary built for one element of the loaded document; the entries are
  evaluated in the order they are written.\<close>

definition load_note :: "pylib \<Rightarrow> json \<Rightarrow> error + note_record" where
  "load_note L j =
     bnd (getitem j k_title) (\<lambda>t.
     bnd (getitem j k_content) (\<lambda>c.
     bnd (getitem j k_created) (\<lambda>cr.
     bnd (fromisoformat_json L cr) (\<lambda>created_dt.
     bnd (getitem j k_updated) (\<lambda>up.
     bnd (fromisoformat_json L up) (\<lambda>updated_dt.
     bnd (dict_get j k_read_only (JBool False)) (\<lambda>ro.
       Inr \<lparr>title = t, content = c, created = created_dt, updated = updated_dt,
           read_only = ro\<rparr>)))))))"

text \<open>\<open>for note in loaded\<close>: a list yields its elements, a dictionary its keys, a string its
  characters; the other values are not iterable.\<close>

fun iterate :: "json \<Rightarrow> error + json list" where
  "iterate (JList xs) = Inr xs"
| "iterate (JObj kvs) = Inr (map (\<lambda>kv. JStr (fst kv)) kvs)"
| "iterate (JStr s) = Inr (map (\<lambda>c. JStr [c]) s)"
| "iterate _ = Inl TypeError"

fun load_notes_loop :: "pylib \<Rightarrow> json list \<Rightarrow> note_record list \<Rightarrow> error + note_record list" where
  "load_notes_loop L [] acc = Inr acc"
| "load_notes_loop L (j # js) acc =
     bnd (load_note L j) (\<lambda>n. load_notes_loop L js (acc @ [n]))"

fun load_notes_from_file :: "pylib \<Rightarrow> jfile \<Rightarrow> error + note_record list" where
  "load_notes_from_file L Absent = Inr []"
| "load_notes_from_file L Unreadable = Inl OSError"
| "load_notes_from_file L Unparsable = Inl JSONDecodeError"
| "load_notes_from_file L (Doc loaded) =
     bnd (iterate loaded) (\<lambda>items. load_notes_loop L items [])"

section \<open>Start-up\<close>

text \<open>The assignments of \<open>NotesApp.__init__\<close> that precede \<open>init_ui()\<close>; an exception in any
  of them ends the constructor and with it the program. The editor is empty and editable,
  the toggle unchecked.\<close>

definition NotesApp_init :: "pylib \<Rightarrow> bytes \<Rightarrow> jfile \<Rightarrow> kfile \<Rightarrow> jfile \<Rightarrow> error + app" where
  "NotesApp_init L generated nf kf cf =
     bnd (load_notes_from_file L nf) (\<lambda>ns.
       case load_key generated kf of
         (r, kf') \<Rightarrow>
           bnd r (\<lambda>k.
           bnd (load_config cf) (\<lambda>cfg.
             Inr \<lparr>notes = ns, current_note_index = None, key = k, config = cfg,
                 last_password_entry = None, text_edit = [], text_read_only = False,
                 protection_checked = False, config_file = cf, notes_file = nf,
                 key_file = kf', events = [], dialogs_shown = 0\<rparr>)))"

section \<open>Closing the editor\<close>

text \<open>The characters that \<open>str.strip()\<close> removes, and those at which \<open>str.splitlines()\<close>
  breaks.\<close>

definition is_space :: "nat \<Rightarrow> bool" where
  "is_space c =
     ((9 \<le> c \<and> c \<le> 13) \<or> (28 \<le> c \<and> c \<le> 32) \<or> c = 133 \<or> c = 160 \<or> c = 5760
      \<or> (8192 \<le> c \<and> c \<le> 8202) \<or> c = 8232 \<or> c = 8233 \<or> c = 8239 \<or> c = 8287
      \<or> c = 12288)"

definition strip :: "pystr \<Rightarrow> pystr" where
  "strip s = rev (dropWhile is_space (rev (dropWhile is_space s)))"

definition is_linebreak :: "nat \<Rightarrow> bool" where
  "is_linebreak c =
     ((10 \<le> c \<and> c \<le> 13) \<or> (28 \<le> c \<and> c \<le> 30) \<or> c = 133 \<or> c = 8232 \<or> c = 8233)"

text \<open>\<open>splitlines\<close>: \<open>cur\<close> is the line read so far; a carriage return followed by a line
  feed is one break; a last line without a break is kept, an empty one is not.\<close>

fun splitlines_from :: "pystr \<Rightarrow> pystr \<Rightarrow> pystr list" where
  "splitlines_from cur [] = (if cur = [] then [] else [cur])"
| "splitlines_from cur [c] = (if is_linebreak c then [cur] else [cur @ [c]])"
| "splitlines_from cur (c # d # s) =
     (if c = 13 \<and> d = 10 then cur # splitlines_from [] s
      else if is_linebreak c then cur # splitlines_from [] (d # s)
      else splitlines_from (cur @ [c]) (d # s))"

definition splitlines :: "pystr \<Rightarrow> pystr list" where
  "splitlines s = splitlines_from [] s"

text \<open>\<open>"\n".join(ls)\<close>.\<close>

fun join_lines :: "pystr list \<Rightarrow> pystr" where
  "join_lines [] = []"
| "join_lines [l] = l"
| "join_lines (l # m # ls) = l @ [10] @ join_lines (m # ls)"

text \<open>\<open>xs[i]\<close> for an integer \<open>i\<close>: a negative index counts from the end.\<close>

definition py_index :: "'a list \<Rightarrow> int \<Rightarrow> error + nat" where
  "py_index xs i =
     (let n = int (length xs); j = (if i < 0 then n + i else i)
      in if 0 \<le> j \<and> j < n then Inr (nat j) else Inl IndexError)"

text \<open>The branch \<open>if full_text:\<close> of \<open>close_notepad\<close>.\<close>

definition store_text ::
  "pylib \<Rightarrow> app \<Rightarrow> datetime \<Rightarrow> bytes \<Rightarrow> bytes \<Rightarrow> pystr \<Rightarrow> error + app" where
  "store_text L st now e1 e2 full_text =
     (let lines = splitlines full_text in
      bnd (case lines of [] \<Rightarrow> Inl IndexError | l # ls \<Rightarrow> Inr l) (\<lambda>title_text.
        let content_text = (if length lines > 1 then strip (join_lines (tl lines)) else []) in
        bnd (encrypt_text L (key st) e1 title_text) (\<lambda>encrypted_title.
        bnd (encrypt_text L (key st) e2 content_text) (\<lambda>encrypted_content.
          case current_note_index st of
            None \<Rightarrow>
              Inr (st\<lparr>notes := notes st @
                     [\<lparr>title = JStr encrypted_title, content = JStr encrypted_content,
                       created = now, updated = now, read_only = JBool False\<rparr>]\<rparr>)
          | Some i \<Rightarrow>
              bnd (py_index (notes st) i) (\<lambda>j.
                Inr (st\<lparr>notes := (notes st)
                       [j := (notes st ! j)\<lparr>title := JStr encrypted_title,
                                            content := JStr encrypted_content,
                                            updated := now\<rparr>]\<rparr>))))))"

text \<open>\<open>close_notepad\<close>: \<open>now\<close> is the clock, \<open>e1\<close> and \<open>e2\<close> the entropy of the two encryptions.
  \<open>refresh_note_list\<close> and the slide animations change widgets only.\<close>

definition close_notepad ::
  "pylib \<Rightarrow> app \<Rightarrow> datetime \<Rightarrow> bytes \<Rightarrow> bytes \<Rightarrow> error + app" where
  "close_notepad L st now e1 e2 =
     (if text_read_only st then Inr st
      else
        let full_text = strip (text_edit st) in
        bnd (if full_text \<noteq> [] then store_text L st now e1 e2 full_text else Inr st)
          (\<lambda>st'. Inr (save_notes_to_file st')))"

section \<open>Reading a stored configuration\<close>

text \<open>The value that \<open>config.get(k, dflt)\<close> returns for the dictionary with the items
  \<open>kvs\<close>.\<close>

definition cfg_get :: "(pystr \<times> json) list \<Rightarrow> pystr \<Rightarrow> json \<Rightarrow> json" where
  "cfg_get kvs k dflt = (case map_of kvs k of None \<Rightarrow> dflt | Some v \<Rightarrow> v)"

section \<open>A concrete library for evaluation\<close>

text \<open>
  A parser for the two forms that \<open>isoformat\<close> writes for a naive datetime. Python's
  \<open>fromisoformat\<close> accepts these and returns the datetime they denote; it accepts other
  forms as well, which is why the model takes it as a parameter.
\<close>

fun digits_value :: "pystr \<Rightarrow> nat \<Rightarrow> nat option" where
  "digits_value [] acc = Some acc"
| "digits_value (c # cs) acc =
     (if 48 \<le> c \<and> c \<le> 57 then digits_value cs (acc * 10 + (c - 48)) else None)"

definition fromisoformat_canonical :: "pystr \<Rightarrow> error + datetime" where
  "fromisoformat_canonical s =
     (if (length s = 19 \<or> (length s = 26 \<and> s ! 19 = 46))
         \<and> s ! 4 = 45 \<and> s ! 7 = 45 \<and> s ! 10 = 84 \<and> s ! 13 = 58 \<and> s ! 16 = 58
      then
        case digits_value (take 4 s) 0 of None \<Rightarrow> Inl ValueError | Some y \<Rightarrow>
        case digits_value (take 2 (drop 5 s)) 0 of None \<Rightarrow> Inl ValueError | Some m \<Rightarrow>
        case digits_value (take 2 (drop 8 s)) 0 of None \<Rightarrow> Inl ValueError | Some d \<Rightarrow>
        case digits_value (take 2 (drop 11 s)) 0 of None \<Rightarrow> Inl ValueError | Some h \<Rightarrow>
        case digits_value (take 2 (drop 14 s)) 0 of None \<Rightarrow> Inl ValueError | Some mi \<Rightarrow>
        case digits_value (take 2 (drop 17 s)) 0 of None \<Rightarrow> Inl ValueError | Some se \<Rightarrow>
        case digits_value (drop 20 s) 0 of None \<Rightarrow> Inl ValueError | Some us \<Rightarrow>
          (let dt = \<lparr>year = y, month = m, day = d, hour = h, minute = mi, second = se,
                     microsecond = us\<rparr>
           in if valid_datetime dt then Inr dt else Inl ValueError)
      else Inl ValueError)"

text \<open>
  Stand-ins for the other library functions, simple enough to evaluate: the digest is the
  length of the input, the codec is the identity on ASCII, a key is accepted when it has
  the 44 bytes of a Fernet key, and a token is the 16 bytes of entropy followed by the
  data. They are used at concrete inputs only; no theorem about the program depends on
  them.
\<close>

definition demo_lib :: pylib where
  "demo_lib =
     \<lparr>sha256 = (\<lambda>bs. of_nat (length bs)),
      utf8_encode = map char_of,
      utf8_decode = (\<lambda>bs. if list_all (\<lambda>b. (of_char b :: nat) < 128) bs
                          then Inr (map of_char bs) else Inl UnicodeDecodeError),
      key_ok = (\<lambda>k. length k = 44),
      fernet_encrypt = (\<lambda>k e m. take 16 (e @ replicate 16 (CHR ''A'')) @ m),
      fernet_decrypt = (\<lambda>k t. if length t < 16 then Inl InvalidToken else Inr (drop 16 t)),
      fromisoformat = fromisoformat_canonical\<rparr>"

definition demo_time :: datetime where
  "demo_time =
     \<lparr>year = 2024, month = 2, day = 29, hour = 10, minute = 30, second = 0,
      microsecond = 0\<rparr>"

definition demo_key :: bytes where
  "demo_key = replicate 44 (CHR ''k'')"

text \<open>The state after a first start in an empty directory.\<close>

definition demo_app :: app where
  "demo_app =
     \<lparr>notes = [], current_note_index = None, key = demo_key, config = default_config,
      last_password_entry = None, text_edit = [], text_read_only = False,
      protection_checked = False, config_file = Absent, notes_file = Absent,
      key_file = KBytes demo_key, events = [], dialogs_shown = 0\<rparr>"

text \<open>A configuration with protection switched on and the password \<open>secret\<close>.\<close>

definition demo_protected :: "(pystr \<times> json) list" where
  "demo_protected =
     [(k_password_protected, JBool True),
      (k_password_hash, JStr (hash_password demo_lib (py ''secret''))),
      (k_password_timeout, JInt 60)]"

text \<open>A configuration with a timeout of 210380 days, the time from the first of January
  2024 to the first of January 2600, and the two clock readings one microsecond less than
  that timeout apart.\<close>

definition demo_long_timeout :: "(pystr \<times> json) list" where
  "demo_long_timeout =
     [(k_password_protected, JBool True),
      (k_password_hash, JStr (hash_password demo_lib (py ''secret''))),
      (k_password_timeout, JInt 18176832000)]"

definition demo_entry_2024 :: datetime where
  "demo_entry_2024 =
     \<lparr>year = 2024, month = 1, day = 1, hour = 0, minute = 0, second = 0, microsecond = 1\<rparr>"

definition demo_query_2600 :: datetime where
  "demo_query_2600 =
     \<lparr>year = 2600, month = 1, day = 1, hour = 0, minute = 0, second = 0, microsecond = 0\<rparr>"

definition demo_note :: note_record where
  "demo_note =
     \<lparr>title = JStr (py ''t1''), content = JStr (py ''c1''), created = demo_time,
      updated = demo_time\<lparr>microsecond := 250\<rparr>, read_only = JBool True\<rparr>"

section \<open>Basic facts\<close>

lemma config_keys_distinct:
  "k_password_protected \<noteq> k_password_hash" "k_password_protected \<noteq> k_password_timeout"
  "k_password_hash \<noteq> k_password_timeout"
  "k_password_hash \<noteq> k_password_protected" "k_password_timeout \<noteq> k_password_protected"
  "k_password_timeout \<noteq> k_password_hash"
  by (simp_all add: k_password_protected_def k_password_hash_def k_password_timeout_def py_def)

lemma round_half_even_cases:
  "round_half_even y = \<lfloor>y\<rfloor> \<and> y - of_int \<lfloor>y\<rfloor> \<le> 1 / 2
   \<or> round_half_even y = \<lfloor>y\<rfloor> + 1 \<and> 1 / 2 \<le> y - of_int \<lfloor>y\<rfloor>"
  by (simp add: round_half_even_def Let_def)

lemma round_half_even_ge:
  assumes "of_int k \<le> y"
  shows "k \<le> round_half_even y"
proof -
  have "k \<le> \<lfloor>y\<rfloor>" using assms by (simp add: le_floor_iff)
  then show ?thesis using round_half_even_cases [of y] by auto
qed

lemma round_half_even_le:
  assumes "y \<le> of_int k"
  shows "round_half_even y \<le> k"
proof -
  have f: "\<lfloor>y\<rfloor> \<le> k" using assms by (simp add: floor_le_iff) 
  show ?thesis
  proof (cases "round_half_even y = \<lfloor>y\<rfloor>")
    case True
    then show ?thesis using f by simp
  next
    case False
    then have up: "round_half_even y = \<lfloor>y\<rfloor> + 1" and r: "1 / 2 \<le> y - of_int \<lfloor>y\<rfloor>"
      using round_half_even_cases [of y] by auto
    have "of_int \<lfloor>y\<rfloor> < y" using r by simp
    then have "(of_int \<lfloor>y\<rfloor> :: rat) < of_int k" using assms by simp
    then have "\<lfloor>y\<rfloor> < k" by (simp only: of_int_less_iff)
    then show ?thesis using up by simp
  qed
qed

lemma round_half_even_near: "\<bar>of_int (round_half_even y) - y\<bar> \<le> 1 / 2"
proof -
  have lo: "of_int \<lfloor>y\<rfloor> \<le> y" and hi: "y < of_int \<lfloor>y\<rfloor> + 1"
    by linarith+
  show ?thesis
    using round_half_even_cases [of y] lo hi by (auto simp: abs_le_iff)
qed

lemma binade_ge_one:
  assumes "1 \<le> x"
  shows "2 powi binade x \<le> x" and "x < 2 powi (binade x + 1)"
proof -
  from assms have m: "0 < \<lfloor>x\<rfloor>" by simp
  have b: "1 \<le> bitlen \<lfloor>x\<rfloor>" using m by (simp add: bitlen_alt_def)
  have e: "binade x = bitlen \<lfloor>x\<rfloor> - 1" using assms by (simp add: binade_def)
  have "2 ^ nat (bitlen \<lfloor>x\<rfloor> - 1) \<le> \<lfloor>x\<rfloor>" using bitlen_bounds [OF m] by simp
  then have "(of_int (2 ^ nat (bitlen \<lfloor>x\<rfloor> - 1)) :: rat) \<le> of_int \<lfloor>x\<rfloor>"
    by (simp only: of_int_le_iff)
  also have "\<dots> \<le> x" by simp
  finally show "2 powi binade x \<le> x" using b by (simp add: e power_int_nonneg_exp)
  have "\<lfloor>x\<rfloor> + 1 \<le> 2 ^ nat (bitlen \<lfloor>x\<rfloor>)" using bitlen_bounds [OF m] by simp
  then have "(of_int (\<lfloor>x\<rfloor> + 1) :: rat) \<le> of_int (2 ^ nat (bitlen \<lfloor>x\<rfloor>))"
    by (simp only: of_int_le_iff)
  moreover have "x < of_int (\<lfloor>x\<rfloor> + 1)" by linarith
  ultimately have "x < of_int (2 ^ nat (bitlen \<lfloor>x\<rfloor>))" by linarith
  then show "x < 2 powi (binade x + 1)" using b by (simp add: e power_int_nonneg_exp)
qed

lemma binade_less_one:
  assumes "0 < x" and "x < 1"
  shows "2 powi binade x \<le> x" and "x < 2 powi (binade x + 1)"
proof -
  let ?n = "\<lceil>1 / x\<rceil> - 1"
  have inv: "1 < 1 / x" using assms by simp
  then have "1 < \<lceil>1 / x\<rceil>" by (simp add: less_ceiling_iff)
  then have n: "0 < ?n" by simp
  have b: "1 \<le> bitlen ?n" using n by (simp add: bitlen_alt_def)
  have e: "binade x = - bitlen ?n" using assms by (simp add: binade_def)
  have lo: "of_int ?n < 1 / x" by linarith
  have hi: "1 / x \<le> of_int (?n + 1)" by (simp add: le_of_int_ceiling)
  have "?n + 1 \<le> 2 ^ nat (bitlen ?n)" using bitlen_bounds [OF n] by simp
  then have "(of_int (?n + 1) :: rat) \<le> of_int (2 ^ nat (bitlen ?n))"
    by (simp only: of_int_le_iff)
  from order_trans [OF hi this] have "1 / x \<le> 2 ^ nat (bitlen ?n)"
    by (simp only: of_int_power of_int_numeral)
  then have "1 / 2 ^ nat (bitlen ?n) \<le> x"
    using assms(1) by (simp add: field_simps)
  then show "2 powi binade x \<le> x"
    using b by (simp add: e power_int_minus_divide power_int_nonneg_exp)
  have "2 ^ nat (bitlen ?n - 1) \<le> ?n" using bitlen_bounds [OF n] by simp
  then have "(of_int (2 ^ nat (bitlen ?n - 1)) :: rat) \<le> of_int ?n"
    by (simp only: of_int_le_iff)
  from order_le_less_trans [OF this lo] have "2 ^ nat (bitlen ?n - 1) < 1 / x"
    by (simp only: of_int_power of_int_numeral)
  then have x: "x < 1 / 2 ^ nat (bitlen ?n - 1)"
    using assms(1) by (simp add: field_simps)
  have "2 powi (binade x + 1) = (1 / 2 ^ nat (bitlen ?n - 1) :: rat)"
    using b power_int_minus_divide [of "2::rat" "bitlen ?n - 1"]
    by (simp add: e power_int_nonneg_exp)
  with x show "x < 2 powi (binade x + 1)" by simp
qed

lemma binade_bounds:
  assumes "0 < x"
  shows "2 powi binade x \<le> x" and "x < 2 powi (binade x + 1)"
  using assms binade_ge_one [of x] binade_less_one [of x] by (cases "1 \<le> x"; simp)+

lemma powi_two_less_imp:
  assumes "(2::rat) powi m < 2 powi n"
  shows "m < n"
proof (rule ccontr)
  assume "\<not> m < n"
  then have "(2::rat) powi n \<le> 2 powi m" by (intro power_int_increasing) simp_all
  with assms show False by simp
qed

lemma binade_unique:
  assumes "0 < x" and "2 powi e \<le> x" and "x < 2 powi (e + 1)"
  shows "binade x = e"
proof -
  have "(2::rat) powi e < 2 powi (binade x + 1)"
    using assms(2) binade_bounds(2) [OF assms(1)] by linarith
  then have a: "e < binade x + 1" by (rule powi_two_less_imp)
  have "(2::rat) powi binade x < 2 powi (e + 1)"
    using assms(3) binade_bounds(1) [OF assms(1)] by linarith
  then have "binade x < e + 1" by (rule powi_two_less_imp)
  with a show ?thesis by simp
qed


lemma round_double_pos:
  "0 < x \<Longrightarrow>
   round_double x
     = 2 powi (binade x - 52) * of_int (round_half_even (x / 2 powi (binade x - 52)))"
  by (simp add: round_double_def Let_def)

lemma round_double_minus: "round_double (- x) = - round_double x"
  by (simp add: round_double_def Let_def)

lemma round_double_zero: "round_double 0 = 0"
  by (simp add: round_double_def)

lemma powi_split: "(2::rat) powi e = 2 powi (e - 52) * 2 ^ 52"
proof -
  have "(2::rat) powi e = 2 powi ((e - 52) + 52)" by simp
  also have "\<dots> = 2 powi (e - 52) * 2 powi 52" by (rule power_int_add) simp
  finally show ?thesis by simp
qed

lemma round_double_ge_power:
  assumes "0 < x"
  shows "2 powi binade x \<le> round_double x"
proof -
  let ?q = "(2::rat) powi (binade x - 52)"
  have q: "0 < ?q" by simp
  have "?q * 2 ^ 52 \<le> x"
    using binade_bounds(1) [OF assms] powi_split [of "binade x"] by simp
  then have "of_int (2 ^ 52) \<le> x / ?q"
    using q by (simp add: field_simps)
  then have "2 ^ 52 \<le> round_half_even (x / ?q)" by (rule round_half_even_ge)
  then have "(of_int (2 ^ 52) :: rat) \<le> of_int (round_half_even (x / ?q))"
    by (simp only: of_int_le_iff)
  then have "?q * of_int (2 ^ 52) \<le> ?q * of_int (round_half_even (x / ?q))"
    using q by (simp only: mult_le_cancel_left_pos)
  then show ?thesis
    using powi_split [of "binade x"] by (simp add: round_double_pos [OF assms])
qed

lemma round_double_error:
  assumes "0 < x"
  shows "\<bar>round_double x - x\<bar> \<le> 2 powi (binade x - 52) / 2"
proof -
  let ?q = "(2::rat) powi (binade x - 52)"
  have q: "0 < ?q" by simp
  have "round_double x - x = ?q * (of_int (round_half_even (x / ?q)) - x / ?q)"
    using q by (simp add: round_double_pos [OF assms] field_simps)
  then have "\<bar>round_double x - x\<bar> = ?q * \<bar>of_int (round_half_even (x / ?q)) - x / ?q\<bar>"
    using q by (simp add: abs_mult)
  also have "\<dots> \<le> ?q * (1 / 2)"
    using q round_half_even_near [of "x / ?q"] by (simp only: mult_le_cancel_left_pos)
  finally show ?thesis by simp
qed

lemma round_double_ge_int:
  assumes "0 < S" and "S \<le> 2 ^ 52" and "of_int S \<le> x"
  shows "of_int S \<le> round_double x"
proof -
  have x: "0 < x" using assms(1,3) by (simp add: less_le_trans [of 0 "of_int S" x])
  let ?e = "binade x"
  let ?q = "(2::rat) powi (?e - 52)"
  have q: "0 < ?q" by simp
  show ?thesis
  proof (cases "52 \<le> ?e")
    case True
    have "(of_int S :: rat) \<le> of_int (2 ^ 52)" using assms(2) by (simp only: of_int_le_iff)
    also have "\<dots> = 2 powi 52" by simp
    also have "\<dots> \<le> 2 powi ?e" using True by (intro power_int_increasing) simp_all
    also have "\<dots> \<le> round_double x" by (rule round_double_ge_power [OF x])
    finally show ?thesis .
  next
    case False
    then have n: "0 \<le> 52 - ?e" by simp
    have inv: "1 / ?q = 2 ^ nat (52 - ?e)"
      using n power_int_minus_divide [of "2::rat" "?e - 52"]
      by (simp add: power_int_nonneg_exp [symmetric])
    have "of_int (S * 2 ^ nat (52 - ?e)) = of_int S * (1 / ?q)"
      by (simp add: inv)
    also have "\<dots> \<le> x * (1 / ?q)"
      using assms(3) q by (intro mult_right_mono) simp_all
    finally have "of_int (S * 2 ^ nat (52 - ?e)) \<le> x / ?q" by simp
    then have "S * 2 ^ nat (52 - ?e) \<le> round_half_even (x / ?q)"
      by (rule round_half_even_ge)
    then have "(of_int (S * 2 ^ nat (52 - ?e)) :: rat) \<le> of_int (round_half_even (x / ?q))"
      by (simp only: of_int_le_iff)
    then have c: "?q * of_int (S * 2 ^ nat (52 - ?e)) \<le> ?q * of_int (round_half_even (x / ?q))"
      using q by (simp only: mult_le_cancel_left_pos)
    have "?q * (1 / ?q) = 1" using q by simp
    then have "?q * 2 ^ nat (52 - ?e) = 1" by (simp only: inv)
    then have d: "?q * of_int (S * 2 ^ nat (52 - ?e)) = of_int S"
      by (simp add: mult.assoc mult.left_commute)
    from c have "of_int S \<le> ?q * of_int (round_half_even (x / ?q))" by (simp only: d)
    then show ?thesis by (simp only: round_double_pos [OF x])
  qed
qed

lemma round_double_close:
  assumes "0 < x" and "x < 2 ^ 34"
  shows "round_double x \<le> x + 1 / 2 ^ 20"
proof -
  have "(2::rat) powi binade x < 2 powi 34"
    using binade_bounds(1) [OF assms(1)] assms(2) by simp
  then have "binade x < 34" by (rule powi_two_less_imp)
  then have "(2::rat) powi (binade x - 52) \<le> 2 powi (- 19)"
    by (intro power_int_increasing) simp_all
  also have "(2::rat) powi (- 19) = 1 / 2 ^ 19"
    using power_int_minus_divide [of "2::rat" 19] by simp
  finally have a: "(2::rat) powi (binade x - 52) / 2 \<le> 1 / 2 ^ 20" by simp
  have "round_double x - x \<le> \<bar>round_double x - x\<bar>" by simp
  also note round_double_error [OF assms(1)]
  also note a
  finally show ?thesis by simp
qed

lemma round_double_nonneg: "0 \<le> x \<Longrightarrow> 0 \<le> round_double x"
  using round_double_ge_power [of x] zero_le_power_int [of "2::rat" "binade x"]
  by (cases "x = 0") (simp_all add: round_double_zero order_trans [of 0 "2 powi binade x"])

lemma round_double_neg: "x < 0 \<Longrightarrow> round_double x < 0"
proof -
  assume "x < 0"
  then have "0 < - x" by simp
  then have "2 powi binade (- x) \<le> round_double (- x)" by (rule round_double_ge_power)
  moreover have "(0::rat) < 2 powi binade (- x)" by simp
  ultimately have "0 < round_double (- x)" by linarith
  then show ?thesis by (simp add: round_double_minus)
qed

lemma total_seconds_less_bounded:
  assumes "0 \<le> S" and "S \<le> 2 ^ 34"
  shows "(total_seconds us < of_int S) = (us < S * 1000000)"
proof (cases "us < S * 1000000")
  case True
  let ?x = "of_int us / (1000000::rat)"
  have "us + 1 \<le> S * 1000000" using True by simp
  then have "(of_int (us + 1) :: rat) \<le> of_int (S * 1000000)" by (simp only: of_int_le_iff)
  then have gap: "?x + 1 / 1000000 \<le> of_int S" by (simp add: field_simps)
  have "round_double ?x < of_int S"
  proof (cases "0 < ?x")
    case True
    have "(of_int S :: rat) \<le> of_int (2 ^ 34)" using assms(2) by (simp only: of_int_le_iff)
    then have "?x < 2 ^ 34" using gap by simp
    from round_double_close [OF True this] gap show ?thesis by simp
  next
    case False
    show ?thesis
    proof (cases "?x = 0")
      case True
      then show ?thesis using gap by (simp add: round_double_zero)
    next
      case False
      with \<open>\<not> 0 < ?x\<close> have "?x < 0" by linarith
      then have "round_double ?x < 0" by (rule round_double_neg)
      then show ?thesis using assms(1) by simp
    qed
  qed
  then show ?thesis using True by (simp add: total_seconds_def)
next
  case False
  let ?x = "of_int us / (1000000::rat)"
  have "S * 1000000 \<le> us" using False by simp
  then have "(of_int (S * 1000000) :: rat) \<le> of_int us" by (simp only: of_int_le_iff)
  then have le: "of_int S \<le> ?x" by (simp add: field_simps)
  have "of_int S \<le> round_double ?x"
  proof (cases "S = 0")
    case True
    then show ?thesis using le round_double_nonneg [of ?x] by simp
  next
    case False
    then have "0 < S" using assms(1) by simp
    moreover have "S \<le> 2 ^ 52" using assms(2) by simp
    ultimately show ?thesis using le by (rule round_double_ge_int)
  qed
  then show ?thesis using False by (simp add: total_seconds_def)
qed


lemma total_seconds_rounds_up: "total_seconds 18176831999999999 = 18176832000"
proof -
  let ?x = "18176831999999999 / 1000000 :: rat"
  have x: "0 < ?x" by simp
  have e: "binade ?x = 34"
    by (rule binade_unique) simp_all
  have q: "(2::rat) powi (34 - 52) = 1 / 262144"
    using power_int_minus_divide [of "2::rat" 18] by simp
  have f: "\<lfloor>74452303871999995904 / 15625 :: rat\<rfloor> = 4764947447807999"
    by (rule floor_unique) simp_all
  have r: "round_half_even (?x / (1 / 262144)) = 4764947447808000"
    by (simp add: round_half_even_def Let_def f)
  have "round_double ?x = 18176832000"
    by (simp only: round_double_pos [OF x] e q r)
  then show ?thesis by (simp add: total_seconds_def)
qed





section \<open>The authorization check\<close>

lemma total_seconds_less_numeral:
  assumes "0 \<le> S" and "S \<le> 17179869184"
  shows "(total_seconds us < of_int S) = (us < S * 1000000)"
proof -
  have "S \<le> 2 ^ 34" using assms(2) by simp
  with assms(1) show ?thesis by (rule total_seconds_less_bounded)
qed


lemma demo_elapsed: "dt_sub demo_query_2600 demo_entry_2024 = 18176831999999999"
  by (simp add: dt_sub_def to_us_def toordinal_def days_before_year_def demo_query_2600_def
                demo_entry_2024_def)

lemma demo_before_expiry:
  "to_us demo_query_2600 < to_us demo_entry_2024 + 18176832000 * 1000000"
  using demo_elapsed by (simp add: dt_sub_def)

lemma demo_long_timeout_get:
  "cfg_get demo_long_timeout k_password_protected (JBool False) = JBool True"
  "cfg_get demo_long_timeout k_password_timeout (JInt 60) = JInt 18176832000"
  "cfg_get demo_long_timeout k_password_hash (JStr [])
     = JStr (hash_password demo_lib (py ''secret''))"
  by (simp_all add: cfg_get_def demo_long_timeout_def config_keys_distinct)

lemma is_password_valid_long_timeout:
  assumes "config st = JObj demo_long_timeout"
    and "last_password_entry st = Some demo_entry_2024"
  shows "is_password_valid st demo_query_2600 = Inr False"
  using assms demo_long_timeout_get
  by (simp add: is_password_valid_def bnd_def cfg_get_def demo_elapsed total_seconds_rounds_up)




lemma hexdigest_last: "hexdigest w ! 63 = hex_digit (unat (w AND 15))"
  by (simp add: hexdigest_def)

lemma length_hexdigest: "length (hexdigest w) = 64"
  by (simp add: hexdigest_def)

lemma demo_hash_differs:
  "hash_password demo_lib (py ''wrong'') \<noteq> hash_password demo_lib (py ''secret'')"
proof
  assume "hash_password demo_lib (py ''wrong'') = hash_password demo_lib (py ''secret'')"
  then have "hash_password demo_lib (py ''wrong'') ! 63 = hash_password demo_lib (py ''secret'') ! 63"
    by simp
  then show False
    by (simp add: hash_password_def hexdigest_last demo_lib_def py_def hex_digit_def)
qed

lemma exec_dialog_simp:
  "exec_dialog U ttl st =
     (U (dialogs_shown st),
      st\<lparr>events := events st @ [Dialog ttl], dialogs_shown := Suc (dialogs_shown st)\<rparr>)"
  by (simp add: exec_dialog_def)

section \<open>Submitting a password\<close>

lemma demo_protected_hash:
  "cfg_get demo_protected k_password_hash (JStr []) = JStr (hash_password demo_lib (py ''secret''))"
  by (simp add: cfg_get_def demo_protected_def config_keys_distinct)

lemma demo_locked:
  "is_password_valid (demo_app\<lparr>config := JObj demo_protected\<rparr>) demo_time = Inr False"
  by (simp add: is_password_valid_def bnd_def demo_protected_def demo_app_def)

text \<open>
  C2, as the claim states it, fails for a long timeout in what it says about the
  authorization that follows. With a timeout of 18176832000 seconds and the right password
  entered one microsecond after the start of 2024, \<open>check_password\<close> returns \<open>True\<close> and sets
  \<open>last_password_entry\<close> to that time; at the start of 2600, one microsecond before that time
  plus the timeout, the session is no longer authorized, because the elapsed seconds round
  to the timeout.
\<close>

theorem check_password_rounding_counterexample:
  "check_password demo_lib (\<lambda>n. (True, py ''secret''))
     (demo_app\<lparr>config := JObj demo_long_timeout\<rparr>) demo_entry_2024 demo_entry_2024
     = Inr (True, demo_app\<lparr>config := JObj demo_long_timeout,
                            last_password_entry := Some demo_entry_2024,
                            events := [Dialog ''Password Required''],
                            dialogs_shown := 1\<rparr>)
   \<and> to_us demo_query_2600 < to_us demo_entry_2024 + 18176832000 * 1000000
   \<and> is_password_valid
        (demo_app\<lparr>config := JObj demo_long_timeout,
                  last_password_entry := Some demo_entry_2024,
                  events := [Dialog ''Password Required''],
                  dialogs_shown := 1\<rparr>)
        demo_query_2600 = Inr False"
proof -
  have "check_password demo_lib (\<lambda>n. (True, py ''secret''))
     (demo_app\<lparr>config := JObj demo_long_timeout\<rparr>) demo_entry_2024 demo_entry_2024
     = Inr (True, demo_app\<lparr>config := JObj demo_long_timeout,
                            last_password_entry := Some demo_entry_2024,
                            events := [Dialog ''Password Required''],
                            dialogs_shown := 1\<rparr>)"
    using demo_long_timeout_get
    by (simp add: check_password_def is_password_valid_def bnd_def exec_dialog_simp cfg_get_def
                  demo_app_def)
  then show ?thesis
    using demo_before_expiry
          is_password_valid_long_timeout
            [of "demo_app\<lparr>config := JObj demo_long_timeout,
                  last_password_entry := Some demo_entry_2024,
                  events := [Dialog ''Password Required''],
                  dialogs_shown := 1\<rparr>"]
    by simp
qed

text \<open>
  C2, amended. When the session is locked (\<open>is_password_valid\<close> is false) and the user submits
  a password in the dialog: if its hash equals the stored \<open>password_hash\<close>, \<open>check_password\<close>
  returns \<open>True\<close> and sets \<open>last_password_entry\<close> to the current time, so that afterwards,
  for a \<open>password_timeout\<close> from 0 to \<open>2^34\<close> = 17179869184 seconds, the session is authorized
  exactly until that time plus the timeout; if it does not, \<open>check_password\<close> returns \<open>False\<close>
  after the warning box "Incorrect Password", and nothing but the trace of dialogs has
  changed: \<open>last_password_entry\<close>, the configuration and the files are as before.
\<close>

theorem check_password_locked:
  assumes "config st = JObj kvs"
    and "is_password_valid st now = Inr False"
    and "U (dialogs_shown st) = (True, attempt)"
  shows "(JStr (hash_password L attempt) = cfg_get kvs k_password_hash (JStr []) \<longrightarrow>
            check_password L U st now now' =
              Inr (True, st\<lparr>last_password_entry := Some now',
                             events := events st @ [Dialog ''Password Required''],
                             dialogs_shown := Suc (dialogs_shown st)\<rparr>)
            \<and> (\<forall>S q. cfg_get kvs k_password_timeout (JInt 60) = JInt S
                        \<and> 0 \<le> S \<and> S \<le> 17179869184 \<longrightarrow>
                  is_password_valid (st\<lparr>last_password_entry := Some now',
                             events := events st @ [Dialog ''Password Required''],
                             dialogs_shown := Suc (dialogs_shown st)\<rparr>) q
                    = Inr (to_us q < to_us now' + S * 1000000)))
       \<and> (JStr (hash_password L attempt) \<noteq> cfg_get kvs k_password_hash (JStr []) \<longrightarrow>
            check_password L U st now now' =
              Inr (False, st\<lparr>events := events st @
                                [Dialog ''Password Required'',
                                 Warning ''Incorrect Password''
                                   ''The password you entered is incorrect.''],
                              dialogs_shown := Suc (dialogs_shown st)\<rparr>))"
proof -
  have prot: "truthy (cfg_get kvs k_password_protected (JBool False))"
    using assms(1,2)
    by (auto simp: is_password_valid_def bnd_def cfg_get_def split: if_splits)
  have chk: "check_password L U st now now' =
      (if JStr (hash_password L attempt) = cfg_get kvs k_password_hash (JStr [])
       then Inr (True, st\<lparr>last_password_entry := Some now',
                             events := events st @ [Dialog ''Password Required''],
                             dialogs_shown := Suc (dialogs_shown st)\<rparr>)
       else Inr (False, st\<lparr>events := events st @
                                [Dialog ''Password Required'',
                                 Warning ''Incorrect Password''
                                   ''The password you entered is incorrect.''],
                              dialogs_shown := Suc (dialogs_shown st)\<rparr>))"
    using assms
    by (simp add: check_password_def bnd_def exec_dialog_simp cfg_get_def warning_def)
  have expiry: "is_password_valid (st\<lparr>last_password_entry := Some now',
                             events := events st @ [Dialog ''Password Required''],
                             dialogs_shown := Suc (dialogs_shown st)\<rparr>) q
                    = Inr (to_us q < to_us now' + S * 1000000)"
    if "cfg_get kvs k_password_timeout (JInt 60) = JInt S" "0 \<le> S" "S \<le> 17179869184"
    for S q
    using assms(1) prot that(1) total_seconds_less_numeral [OF that(2,3)]
    by (auto simp: is_password_valid_def bnd_def cfg_get_def dt_sub_def)
  show ?thesis using chk expiry by simp
qed

theorem check_password_locked_witness:
  "config (demo_app\<lparr>config := JObj demo_protected\<rparr>) = JObj demo_protected
   \<and> is_password_valid (demo_app\<lparr>config := JObj demo_protected\<rparr>) demo_time = Inr False
   \<and> check_password demo_lib (\<lambda>n. (True, py ''secret''))
        (demo_app\<lparr>config := JObj demo_protected\<rparr>) demo_time (demo_time\<lparr>second := 7\<rparr>)
      = Inr (True, demo_app\<lparr>config := JObj demo_protected,
                             last_password_entry := Some (demo_time\<lparr>second := 7\<rparr>),
                             events := [Dialog ''Password Required''],
                             dialogs_shown := 1\<rparr>)
   \<and> check_password demo_lib (\<lambda>n. (True, py ''wrong''))
        (demo_app\<lparr>config := JObj demo_protected\<rparr>) demo_time (demo_time\<lparr>second := 7\<rparr>)
      = Inr (False, demo_app\<lparr>config := JObj demo_protected,
                              events := [Dialog ''Password Required'',
                                         Warning ''Incorrect Password''
                                           ''The password you entered is incorrect.''],
                              dialogs_shown := 1\<rparr>)"
proof -
  let ?st = "demo_app\<lparr>config := JObj demo_protected\<rparr>"
  have c: "config ?st = JObj demo_protected" by simp
  have ev: "events ?st = []" "dialogs_shown ?st = 0" by (simp_all add: demo_app_def)
  have a: "check_password demo_lib (\<lambda>n. (True, py ''secret'')) ?st demo_time (demo_time\<lparr>second := 7\<rparr>)
      = Inr (True, ?st\<lparr>last_password_entry := Some (demo_time\<lparr>second := 7\<rparr>),
                             events := [Dialog ''Password Required''],
                             dialogs_shown := 1\<rparr>)"
    using check_password_locked [OF c demo_locked, of "\<lambda>n. (True, py ''secret'')" "py ''secret''"
            demo_lib "demo_time\<lparr>second := 7\<rparr>"] demo_protected_hash ev
    by simp
  have b: "check_password demo_lib (\<lambda>n. (True, py ''wrong'')) ?st demo_time (demo_time\<lparr>second := 7\<rparr>)
      = Inr (False, ?st\<lparr>events := [Dialog ''Password Required'',
                                         Warning ''Incorrect Password''
                                           ''The password you entered is incorrect.''],
                              dialogs_shown := 1\<rparr>)"
    using check_password_locked [OF c demo_locked, of "\<lambda>n. (True, py ''wrong'')" "py ''wrong''"
            demo_lib "demo_time\<lparr>second := 7\<rparr>"] demo_protected_hash demo_hash_differs ev
    by simp
  show ?thesis using a b c demo_locked by simp
qed

lemma encrypt_text_bad_key: "\<not> key_ok L k \<Longrightarrow> encrypt_text L k e p = Inl ValueError"
  by (simp add: encrypt_text_def)

section \<open>Encrypting and decrypting\<close>

text \<open>
  C3. For every plaintext \<open>p\<close> (the empty string included), every key that \<open>Fernet\<close> accepts
  and every draw of entropy: if the library round-trips at \<open>p\<close> (decoding the encoded \<open>p\<close>
  gives \<open>p\<close>, Fernet decrypts its own token to the data, and the token is text that
  encodes back to itself), then \<open>encrypt_text\<close> returns a token and \<open>decrypt_text\<close> of that
  token under the same key returns \<open>p\<close>.
\<close>

theorem decrypt_encrypt_text:
  assumes "key_ok L k"
    and "utf8_decode L (utf8_encode L p) = Inr p"
    and "fernet_decrypt L k (fernet_encrypt L k e (utf8_encode L p)) = Inr (utf8_encode L p)"
    and "utf8_decode L (fernet_encrypt L k e (utf8_encode L p)) = Inr token"
    and "utf8_encode L token = fernet_encrypt L k e (utf8_encode L p)"
  shows "encrypt_text L k e p = Inr token \<and> decrypt_text L k token = Inr p"
  using assms by (simp add: encrypt_text_def decrypt_text_def bnd_def)

lemma demo_key_ok: "key_ok demo_lib demo_key"
  by (simp add: demo_lib_def demo_key_def)

lemma demo_encode_py: "utf8_encode demo_lib (py s) = s"
  by (simp add: demo_lib_def py_def comp_def)

lemma demo_decode:
  "utf8_decode demo_lib bs =
     (if list_all (\<lambda>b. (of_char b :: nat) < 128) bs then Inr (py bs) else Inl UnicodeDecodeError)"
  by (simp add: demo_lib_def py_def)

lemma py_Nil: "py [] = []"
  by (simp add: py_def)

lemma demo_fernet:
  "fernet_encrypt demo_lib k e m = take 16 (e @ replicate 16 (CHR ''A'')) @ m"
  "fernet_decrypt demo_lib k t = (if length t < 16 then Inl InvalidToken else Inr (drop 16 t))"
  by (simp_all add: demo_lib_def)

theorem decrypt_encrypt_text_witness:
  "key_ok demo_lib demo_key
   \<and> encrypt_text demo_lib demo_key ''0123456789abcdef'' [] = Inr (py ''0123456789abcdef'')
   \<and> decrypt_text demo_lib demo_key (py ''0123456789abcdef'') = Inr []
   \<and> encrypt_text demo_lib demo_key ''0123456789abcdef'' (py ''Hi'') = Inr (py ''0123456789abcdefHi'')
   \<and> decrypt_text demo_lib demo_key (py ''0123456789abcdefHi'') = Inr (py ''Hi'')"
proof -
  have a: "encrypt_text demo_lib demo_key ''0123456789abcdef'' [] = Inr (py ''0123456789abcdef'')
     \<and> decrypt_text demo_lib demo_key (py ''0123456789abcdef'') = Inr []"
    using decrypt_encrypt_text [OF demo_key_ok, of "[]" "''0123456789abcdef''" "py ''0123456789abcdef''"]
    by (simp add: demo_encode_py [of "[]", simplified py_Nil] demo_encode_py demo_decode demo_fernet py_Nil)
  have b: "encrypt_text demo_lib demo_key ''0123456789abcdef'' (py ''Hi'') = Inr (py ''0123456789abcdefHi'')
     \<and> decrypt_text demo_lib demo_key (py ''0123456789abcdefHi'') = Inr (py ''Hi'')"
    using decrypt_encrypt_text [OF demo_key_ok, of "py ''Hi''" "''0123456789abcdef''" "py ''0123456789abcdefHi''"]
    by (simp add: demo_encode_py demo_decode demo_fernet)
  show ?thesis using a b demo_key_ok by simp
qed

section \<open>Loading the key\<close>

lemma load_config_Absent: "load_config Absent = Inr default_config"
  by (simp add: load_config_def)

text \<open>
  C4, as the claim states it, fails: a key file whose bytes are not a key that \<open>Fernet\<close>
  accepts is loaded like any other. \<open>load_key\<close> returns the bytes, the constructor
  finishes, and the first encryption with that key raises \<open>ValueError\<close>.
\<close>

theorem load_key_corrupt_counterexample:
  "\<not> key_ok demo_lib ''garbage''
   \<and> load_key demo_key (KBytes ''garbage'') = (Inr ''garbage'', KBytes ''garbage'')
   \<and> NotesApp_init demo_lib demo_key Absent (KBytes ''garbage'') Absent
       = Inr (demo_app\<lparr>key := ''garbage'', key_file := KBytes ''garbage''\<rparr>)
   \<and> encrypt_text demo_lib ''garbage'' ''0123456789abcdef'' (py ''Hi'') = Inl ValueError"
  by (simp add: NotesApp_init_def bnd_def load_config_Absent demo_app_def encrypt_text_def
                demo_lib_def)

text \<open>
  C4, amended. \<open>load_key\<close> generates a key and writes it to the key file if and only if the
  key file is absent. When the key file exists and can be read, its bytes are returned
  unchanged, whatever they are, and the file is left as it is. When the key file exists and
  cannot be read, \<open>load_key\<close> raises, the file is left as it is, and the constructor of the
  application ends with that exception.
\<close>

theorem load_key_amended:
  "(kf = KAbsent \<longrightarrow> load_key generated kf = (Inr generated, KBytes generated))
   \<and> (\<forall>bs. kf = KBytes bs \<longrightarrow> load_key generated kf = (Inr bs, kf))
   \<and> (kf = KUnreadable \<longrightarrow>
        load_key generated kf = (Inl OSError, kf)
        \<and> (\<forall>ns. load_notes_from_file L nf = Inr ns \<longrightarrow>
               NotesApp_init L generated nf kf cf = Inl OSError))
   \<and> ((snd (load_key generated kf) \<noteq> kf) = (kf = KAbsent))"
  by (cases kf) (simp_all add: NotesApp_init_def bnd_def)

theorem load_key_amended_witness:
  "load_key demo_key KAbsent = (Inr demo_key, KBytes demo_key)
   \<and> load_key demo_key (KBytes ''stored key'') = (Inr ''stored key'', KBytes ''stored key'')
   \<and> load_key demo_key KUnreadable = (Inl OSError, KUnreadable)
   \<and> load_notes_from_file demo_lib Absent = Inr []
   \<and> NotesApp_init demo_lib demo_key Absent KUnreadable Absent = Inl OSError"
  using load_key_amended [of KAbsent demo_key demo_lib Absent Absent]
        load_key_amended [of "KBytes ''stored key''" demo_key demo_lib Absent Absent]
        load_key_amended [of KUnreadable demo_key demo_lib Absent Absent]
  by simp

section \<open>Loading the configuration\<close>












section \<open>Switching protection off and on\<close>

lemma hash_password_nonempty: "hash_password L p \<noteq> []"
  using length_hexdigest [of "sha256 L (utf8_encode L p)"]
  by (auto simp: hash_password_def simp del: length_hexdigest)

lemma map_of_update_other: "k \<noteq> k' \<Longrightarrow> map_of (AList.update k' v kvs) k = map_of kvs k"
  by (simp add: update_conv')

lemma map_of_update_same: "map_of (AList.update k v kvs) k = Some v"
  by (simp add: update_conv')

lemma toggled_off_dict:
  "config st = JObj kvs \<Longrightarrow>
   toggled_off st
     = Inr (st\<lparr>config := JObj (AList.update k_password_protected (JBool False) kvs),
               config_file := Doc (JObj (AList.update k_password_protected (JBool False) kvs))\<rparr>)"
  by (simp add: toggled_off_def bnd_def save_config_def)

lemma enable_protection_dict:
  "config st = JObj kvs \<Longrightarrow>
   enable_protection st
     = Inr (st\<lparr>config := JObj (AList.update k_password_protected (JBool True) kvs),
               config_file := Doc (JObj (AList.update k_password_protected (JBool True) kvs))\<rparr>)"
  by (simp add: enable_protection_def bnd_def save_config_def)

lemma toggled_on_with_hash:
  "config st = JObj kvs \<Longrightarrow> truthy (cfg_get kvs k_password_hash JNull) \<Longrightarrow>
   onPasswordProtectionToggled L U True st
     = Inr (st\<lparr>config := JObj (AList.update k_password_protected (JBool True) kvs),
               config_file := Doc (JObj (AList.update k_password_protected (JBool True) kvs))\<rparr>)"
  by (simp add: onPasswordProtectionToggled_def bnd_def cfg_get_def enable_protection_dict)

text \<open>
  C7. Called with \<open>checked = False\<close>, \<open>onPasswordProtectionToggled\<close> sets
  \<open>password_protected\<close> to false, leaves every other entry of the configuration as it was
  (\<open>password_hash\<close> among them) and saves the configuration. When a password hash is set,
  calling it afterwards with \<open>checked = True\<close> sets \<open>password_protected\<close> to true without any
  dialog: the trace of dialogs and message boxes is unchanged and the hash is the one stored
  before.
\<close>

theorem disable_protection_frame:
  assumes "config st = JObj kvs"
  shows "onPasswordProtectionToggled L U False st
           = Inr (st\<lparr>config := JObj (AList.update k_password_protected (JBool False) kvs),
                      config_file :=
                        Doc (JObj (AList.update k_password_protected (JBool False) kvs))\<rparr>)
         \<and> map_of (AList.update k_password_protected (JBool False) kvs) k_password_protected
             = Some (JBool False)
         \<and> (\<forall>k. k \<noteq> k_password_protected \<longrightarrow>
               map_of (AList.update k_password_protected (JBool False) kvs) k = map_of kvs k)
         \<and> (truthy (cfg_get kvs k_password_hash JNull) \<longrightarrow>
               onPasswordProtectionToggled L U True
                 (st\<lparr>config := JObj (AList.update k_password_protected (JBool False) kvs),
                      config_file :=
                        Doc (JObj (AList.update k_password_protected (JBool False) kvs))\<rparr>)
               = Inr (st\<lparr>config := JObj (AList.update k_password_protected (JBool True) kvs),
                          config_file :=
                            Doc (JObj (AList.update k_password_protected (JBool True) kvs))\<rparr>))"
proof -
  let ?off = "AList.update k_password_protected (JBool False) kvs"
  let ?st' = "st\<lparr>config := JObj ?off, config_file := Doc (JObj ?off)\<rparr>"
  have a: "onPasswordProtectionToggled L U False st = Inr ?st'"
    using assms by (simp add: onPasswordProtectionToggled_def toggled_off_dict)
  have h: "cfg_get ?off k_password_hash JNull = cfg_get kvs k_password_hash JNull"
    by (simp add: cfg_get_def map_of_update_other config_keys_distinct)
  have b: "truthy (cfg_get kvs k_password_hash JNull) \<Longrightarrow>
           onPasswordProtectionToggled L U True ?st'
             = Inr (st\<lparr>config := JObj (AList.update k_password_protected (JBool True) kvs),
                        config_file :=
                          Doc (JObj (AList.update k_password_protected (JBool True) kvs))\<rparr>)"
    using toggled_on_with_hash [of ?st' ?off L U] h by simp
  show ?thesis
    using a b by (simp add: map_of_update_other map_of_update_same)
qed

theorem disable_protection_frame_witness:
  "config (demo_app\<lparr>config := JObj demo_protected\<rparr>) = JObj demo_protected
   \<and> truthy (cfg_get demo_protected k_password_hash JNull)
   \<and> onPasswordProtectionToggled demo_lib (\<lambda>n. (False, [])) False
        (demo_app\<lparr>config := JObj demo_protected\<rparr>)
       = Inr (demo_app\<lparr>config :=
                         JObj [(k_password_protected, JBool False),
                               (k_password_hash, JStr (hash_password demo_lib (py ''secret''))),
                               (k_password_timeout, JInt 60)],
                       config_file :=
                         Doc (JObj [(k_password_protected, JBool False),
                               (k_password_hash, JStr (hash_password demo_lib (py ''secret''))),
                               (k_password_timeout, JInt 60)])\<rparr>)
   \<and> onPasswordProtectionToggled demo_lib (\<lambda>n. (False, [])) True
        (demo_app\<lparr>config :=
                         JObj [(k_password_protected, JBool False),
                               (k_password_hash, JStr (hash_password demo_lib (py ''secret''))),
                               (k_password_timeout, JInt 60)],
                       config_file :=
                         Doc (JObj [(k_password_protected, JBool False),
                               (k_password_hash, JStr (hash_password demo_lib (py ''secret''))),
                               (k_password_timeout, JInt 60)])\<rparr>)
       = Inr (demo_app\<lparr>config := JObj demo_protected,
                       config_file := Doc (JObj demo_protected)\<rparr>)"
proof -
  have c: "config (demo_app\<lparr>config := JObj demo_protected\<rparr>) = JObj demo_protected" by simp
  have t: "truthy (cfg_get demo_protected k_password_hash JNull)"
    by (simp add: cfg_get_def demo_protected_def config_keys_distinct hash_password_nonempty)
  have off: "AList.update k_password_protected (JBool False) demo_protected
        = [(k_password_protected, JBool False),
           (k_password_hash, JStr (hash_password demo_lib (py ''secret''))),
           (k_password_timeout, JInt 60)]"
    by (simp add: demo_protected_def)
  have on: "AList.update k_password_protected (JBool True) demo_protected = demo_protected"
    by (simp add: demo_protected_def)
  show ?thesis
    using disable_protection_frame [OF c, of demo_lib "\<lambda>n. (False, [])"] c t
    by (simp add: off on)
qed

section \<open>Changing the password\<close>

lemma setChecked_True_with_hash:
  assumes "config st = JObj kvs" and "truthy (cfg_get kvs k_password_hash JNull)"
    and "map_of kvs k_password_protected = Some (JBool True)"
  shows "setChecked_True L U st
           = Inr (if protection_checked st then st
                  else st\<lparr>protection_checked := True, config_file := Doc (JObj kvs)\<rparr>)"
proof -
  have same: "AList.update k_password_protected (JBool True) kvs = kvs"
    using assms(3) by (induction kvs) (auto split: if_splits)
  show ?thesis
    using assms(1,2) toggled_on_with_hash [of "st\<lparr>protection_checked := True\<rparr>" kvs L U]
    by (simp add: setChecked_True_def same)
qed

text \<open>
  C6, as the claim states it, fails when the new password is empty: with the right current
  password and an empty new password, confirmed by an equally empty entry, the method
  returns after the second dialog and changes nothing. Here protection is switched off
  and stays off, and the stored hash stays the hash of the current password.
\<close>

theorem change_password_empty_counterexample:
  "onChangePasswordClicked demo_lib (\<lambda>n. if n = 0 then (True, py ''secret'') else (True, []))
     (demo_app\<lparr>config := JObj (AList.update k_password_protected (JBool False) demo_protected)\<rparr>)
   = Inr (demo_app\<lparr>config := JObj [(k_password_protected, JBool False),
                        (k_password_hash, JStr (hash_password demo_lib (py ''secret''))),
                        (k_password_timeout, JInt 60)],
                     events := [Dialog ''Verify Password'', Dialog ''New Password''],
                     dialogs_shown := 2\<rparr>)"
  by (simp add: onChangePasswordClicked_def verify_current_def bnd_def exec_dialog_simp
                demo_protected_def demo_app_def config_keys_distinct hash_password_nonempty)

text \<open>
  C6, amended. When a password hash is stored and the dialog for the current password is
  accepted: with the right current password, a new password that is not empty and a
  confirmation equal to it, \<open>onChangePasswordClicked\<close> sets \<open>password_hash\<close> to the hash of the
  new password and \<open>password_protected\<close> to true, leaves the other entries as they were,
  checks the toggle, saves the configuration and reports the change; with a wrong current
  password it shows the warning box "Incorrect Password" and changes nothing else, neither
  the configuration nor its file.
\<close>

theorem change_password_amended:
  assumes "config st = JObj kvs"
    and "truthy (cfg_get kvs k_password_hash JNull)"
    and "U (dialogs_shown st) = (True, old)"
  shows "(JStr (hash_password L old) = cfg_get kvs k_password_hash JNull
          \<and> U (Suc (dialogs_shown st)) = (True, new) \<and> new \<noteq> []
          \<and> U (Suc (Suc (dialogs_shown st))) = (True, new) \<longrightarrow>
            onChangePasswordClicked L U st
              = Inr (st\<lparr>config :=
                          JObj (AList.update k_password_protected (JBool True)
                                 (AList.update k_password_hash (JStr (hash_password L new)) kvs)),
                        protection_checked := True,
                        config_file :=
                          Doc (JObj (AList.update k_password_protected (JBool True)
                                 (AList.update k_password_hash (JStr (hash_password L new)) kvs))),
                        events := events st @
                          [Dialog ''Verify Password'', Dialog ''New Password'',
                           Dialog ''Confirm Password'',
                           Information ''Password Changed'' ''Your password has been updated.''],
                        dialogs_shown := Suc (Suc (Suc (dialogs_shown st)))\<rparr>)
            \<and> (\<forall>k. map_of (AList.update k_password_protected (JBool True)
                               (AList.update k_password_hash (JStr (hash_password L new)) kvs)) k
                     = (if k = k_password_protected then Some (JBool True)
                        else if k = k_password_hash then Some (JStr (hash_password L new))
                        else map_of kvs k)))
       \<and> (JStr (hash_password L old) \<noteq> cfg_get kvs k_password_hash JNull \<longrightarrow>
            onChangePasswordClicked L U st
              = Inr (st\<lparr>events := events st @
                          [Dialog ''Verify Password'',
                           Warning ''Incorrect Password'' ''Current password is incorrect.''],
                        dialogs_shown := Suc (dialogs_shown st)\<rparr>))"
proof (intro conjI impI)
  assume "JStr (hash_password L old) \<noteq> cfg_get kvs k_password_hash JNull"
  then show "onChangePasswordClicked L U st
              = Inr (st\<lparr>events := events st @
                          [Dialog ''Verify Password'',
                           Warning ''Incorrect Password'' ''Current password is incorrect.''],
                        dialogs_shown := Suc (dialogs_shown st)\<rparr>)"
    using assms
    by (simp add: onChangePasswordClicked_def verify_current_def bnd_def exec_dialog_simp
                  cfg_get_def warning_def)
next
  let ?C = "AList.update k_password_protected (JBool True)
              (AList.update k_password_hash (JStr (hash_password L new)) kvs)"
  assume ok: "JStr (hash_password L old) = cfg_get kvs k_password_hash JNull
          \<and> U (Suc (dialogs_shown st)) = (True, new) \<and> new \<noteq> []
          \<and> U (Suc (Suc (dialogs_shown st))) = (True, new)"
  let ?st3 = "st\<lparr>events := events st @ [Dialog ''Verify Password'', Dialog ''New Password'',
                           Dialog ''Confirm Password''],
                 dialogs_shown := Suc (Suc (Suc (dialogs_shown st))),
                 config := JObj ?C\<rparr>"
  have h: "truthy (cfg_get ?C k_password_hash JNull)"
    by (simp add: cfg_get_def map_of_update_other map_of_update_same config_keys_distinct
                  hash_password_nonempty)
  have sc: "setChecked_True L U ?st3
           = Inr (if protection_checked ?st3 then ?st3
                  else ?st3\<lparr>protection_checked := True, config_file := Doc (JObj ?C)\<rparr>)"
    by (rule setChecked_True_with_hash [OF _ h]) (simp_all add: map_of_update_same)
  show "onChangePasswordClicked L U st
              = Inr (st\<lparr>config := JObj ?C, protection_checked := True,
                        config_file := Doc (JObj ?C),
                        events := events st @
                          [Dialog ''Verify Password'', Dialog ''New Password'',
                           Dialog ''Confirm Password'',
                           Information ''Password Changed'' ''Your password has been updated.''],
                        dialogs_shown := Suc (Suc (Suc (dialogs_shown st)))\<rparr>)"
    using assms ok sc
    by (simp add: onChangePasswordClicked_def verify_current_def bnd_def exec_dialog_simp
                  cfg_get_def information_def save_config_def)
next
  show "\<forall>k. map_of (AList.update k_password_protected (JBool True)
                               (AList.update k_password_hash (JStr (hash_password L new)) kvs)) k
                     = (if k = k_password_protected then Some (JBool True)
                        else if k = k_password_hash then Some (JStr (hash_password L new))
                        else map_of kvs k)"
    by (simp add: map_of_update_other map_of_update_same)
qed


lemma demo_protected_hash_get:
  "cfg_get demo_protected k_password_hash JNull
     = JStr (hash_password demo_lib (py ''secret''))"
  by (simp add: cfg_get_def demo_protected_def config_keys_distinct)

theorem change_password_amended_witness:
  "config (demo_app\<lparr>config := JObj demo_protected\<rparr>) = JObj demo_protected
   \<and> truthy (cfg_get demo_protected k_password_hash JNull)
   \<and> onChangePasswordClicked demo_lib
        (\<lambda>n. if n = 0 then (True, py ''secret'') else (True, py ''new one''))
        (demo_app\<lparr>config := JObj demo_protected\<rparr>)
      = Inr (demo_app\<lparr>config :=
                 JObj [(k_password_protected, JBool True),
                       (k_password_hash, JStr (hash_password demo_lib (py ''new one''))),
                       (k_password_timeout, JInt 60)],
               protection_checked := True,
               config_file :=
                 Doc (JObj [(k_password_protected, JBool True),
                       (k_password_hash, JStr (hash_password demo_lib (py ''new one''))),
                       (k_password_timeout, JInt 60)]),
               events := [Dialog ''Verify Password'', Dialog ''New Password'',
                          Dialog ''Confirm Password'',
                          Information ''Password Changed'' ''Your password has been updated.''],
               dialogs_shown := 3\<rparr>)
   \<and> onChangePasswordClicked demo_lib (\<lambda>n. (True, py ''wrong''))
        (demo_app\<lparr>config := JObj demo_protected\<rparr>)
      = Inr (demo_app\<lparr>config := JObj demo_protected,
               events := [Dialog ''Verify Password'',
                          Warning ''Incorrect Password'' ''Current password is incorrect.''],
               dialogs_shown := 1\<rparr>)"
proof -
  let ?st = "demo_app\<lparr>config := JObj demo_protected\<rparr>"
  have c: "config ?st = JObj demo_protected" by simp
  have t: "truthy (cfg_get demo_protected k_password_hash JNull)"
    by (simp add: demo_protected_hash_get hash_password_nonempty)
  have ev: "events ?st = []" "dialogs_shown ?st = 0" by (simp_all add: demo_app_def)
  have py_ne: "py ''new one'' \<noteq> []" by (simp add: py_def)
  have upd: "AList.update k_password_protected (JBool True)
               (AList.update k_password_hash (JStr (hash_password demo_lib (py ''new one'')))
                  demo_protected)
             = [(k_password_protected, JBool True),
                (k_password_hash, JStr (hash_password demo_lib (py ''new one''))),
                (k_password_timeout, JInt 60)]"
    by (simp add: demo_protected_def config_keys_distinct)
  have a: "onChangePasswordClicked demo_lib
        (\<lambda>n. if n = 0 then (True, py ''secret'') else (True, py ''new one'')) ?st
      = Inr (?st\<lparr>config :=
                 JObj [(k_password_protected, JBool True),
                       (k_password_hash, JStr (hash_password demo_lib (py ''new one''))),
                       (k_password_timeout, JInt 60)],
               protection_checked := True,
               config_file :=
                 Doc (JObj [(k_password_protected, JBool True),
                       (k_password_hash, JStr (hash_password demo_lib (py ''new one''))),
                       (k_password_timeout, JInt 60)]),
               events := [Dialog ''Verify Password'', Dialog ''New Password'',
                          Dialog ''Confirm Password'',
                          Information ''Password Changed'' ''Your password has been updated.''],
               dialogs_shown := 3\<rparr>)"
    using change_password_amended [OF c t,
            of "\<lambda>n. if n = 0 then (True, py ''secret'') else (True, py ''new one'')"
               "py ''secret''" demo_lib "py ''new one''"]
          ev py_ne demo_protected_hash_get
    by (simp add: upd numeral_3_eq_3)
  have b: "onChangePasswordClicked demo_lib (\<lambda>n. (True, py ''wrong'')) ?st
      = Inr (?st\<lparr>events := [Dialog ''Verify Password'',
                          Warning ''Incorrect Password'' ''Current password is incorrect.''],
               dialogs_shown := 1\<rparr>)"
    using change_password_amended [OF c t, of "\<lambda>n. (True, py ''wrong'')" "py ''wrong''" demo_lib]
          ev demo_protected_hash_get demo_hash_differs
    by simp
  show ?thesis using a b c t by simp
qed

section \<open>Closing the editor without text\<close>

lemma strip_all_space:
  assumes "\<forall>c \<in> set s. is_space c"
  shows "strip s = []"
proof -
  have empty: "dropWhile is_space s = []"
    using assms by (induction s) simp_all
  show ?thesis
    unfolding strip_def by (simp only: empty rev.simps dropWhile.simps)
qed

lemma notes_save_notes_to_file: "notes (save_notes_to_file st) = notes st"
  by (simp add: save_notes_to_file_def)

text \<open>
  C10. If the editor is read-only, or its text is empty or consists of whitespace only,
  \<open>close_notepad\<close> returns without an exception and the list of notes is the one it was:
  no note is added, and no field of any note has changed. (In the read-only case nothing
  at all has changed; otherwise the unchanged list has been written to the notes file.)
\<close>

theorem close_notepad_keeps_notes:
  assumes "text_read_only st \<or> (\<forall>c \<in> set (text_edit st). is_space c)"
  shows "close_notepad L st now e1 e2
           = Inr (if text_read_only st then st else save_notes_to_file st)
         \<and> notes (if text_read_only st then st else save_notes_to_file st) = notes st"
  using assms
  by (auto simp: close_notepad_def bnd_def strip_all_space notes_save_notes_to_file)

theorem close_notepad_keeps_notes_witness:
  "is_space 32 \<and> is_space 10 \<and> is_space 9
   \<and> close_notepad demo_lib
        (demo_app\<lparr>notes := [demo_note], current_note_index := Some 0,
                  text_edit := [32, 10, 9, 32]\<rparr>)
        demo_time ''0123456789abcdef'' ''0123456789abcdef''
      = Inr (demo_app\<lparr>notes := [demo_note], current_note_index := Some 0,
                      text_edit := [32, 10, 9, 32],
                      notes_file := Doc (JList [note_to_json demo_note])\<rparr>)
   \<and> close_notepad demo_lib
        (demo_app\<lparr>notes := [demo_note], current_note_index := Some 0,
                  text_edit := py ''changed'', text_read_only := True\<rparr>)
        demo_time ''0123456789abcdef'' ''0123456789abcdef''
      = Inr (demo_app\<lparr>notes := [demo_note], current_note_index := Some 0,
                      text_edit := py ''changed'', text_read_only := True\<rparr>)"
proof -
  let ?a = "demo_app\<lparr>notes := [demo_note], current_note_index := Some 0,
                     text_edit := [32, 10, 9, 32]\<rparr>"
  let ?b = "demo_app\<lparr>notes := [demo_note], current_note_index := Some 0,
                  text_edit := py ''changed'', text_read_only := True\<rparr>"
  have sp: "\<forall>c \<in> set (text_edit ?a). is_space c"
    by (simp add: is_space_def)
  have ro: "\<not> text_read_only ?a" by (simp add: demo_app_def)
  have a: "close_notepad demo_lib ?a demo_time ''0123456789abcdef'' ''0123456789abcdef''
             = Inr (save_notes_to_file ?a)"
    using close_notepad_keeps_notes [of ?a demo_lib demo_time "''0123456789abcdef''"
            "''0123456789abcdef''"] sp ro
    by simp
  have b: "close_notepad demo_lib ?b demo_time ''0123456789abcdef'' ''0123456789abcdef''
             = Inr ?b"
    using close_notepad_keeps_notes [of ?b demo_lib demo_time "''0123456789abcdef''"
            "''0123456789abcdef''"]
    by simp
  have "is_space 32 \<and> is_space 10 \<and> is_space 9" by (simp add: is_space_def)
  then show ?thesis using a b by (simp add: save_notes_to_file_def)
qed

section \<open>Timestamps as text\<close>

lemma length_dec_digits: "length (dec_digits w n) = w"
  by (induction w arbitrary: n) simp_all

lemma digits_value_append:
  "digits_value (xs @ ys) acc
     = (case digits_value xs acc of None \<Rightarrow> None | Some a \<Rightarrow> digits_value ys a)"
  by (induction xs arbitrary: acc) simp_all

lemma digits_value_dec_digits:
  "digits_value (dec_digits w n) acc = Some (acc * 10 ^ w + n mod 10 ^ w)"
proof (induction w arbitrary: n)
  case 0
  then show ?case by simp
next
  case (Suc w)
  have "n mod (10 * 10 ^ w) = 10 * (n div 10 mod 10 ^ w) + n mod 10"
    by (rule mod_mult2_eq)
  then show ?case
    using Suc [of "n div 10"] by (simp add: digits_value_append algebra_simps)
qed

lemma digits_value_field:
  "n < 10 ^ w \<Longrightarrow> digits_value (dec_digits w n) 0 = Some n"
  by (simp add: digits_value_dec_digits)

lemma parse_layout:
  assumes "length A = 4" "length B = 2" "length C = 2" "length D = 2" "length E = 2"
    "length F = 2" "G = [] \<or> (\<exists>U. G = 46 # U \<and> length U = 6)"
  shows "fromisoformat_canonical (A @ [45] @ B @ [45] @ C @ [84] @ D @ [58] @ E @ [58] @ F @ G)
    = (case digits_value A 0 of None \<Rightarrow> Inl ValueError | Some y \<Rightarrow>
        case digits_value B 0 of None \<Rightarrow> Inl ValueError | Some m \<Rightarrow>
        case digits_value C 0 of None \<Rightarrow> Inl ValueError | Some d \<Rightarrow>
        case digits_value D 0 of None \<Rightarrow> Inl ValueError | Some h \<Rightarrow>
        case digits_value E 0 of None \<Rightarrow> Inl ValueError | Some mi \<Rightarrow>
        case digits_value F 0 of None \<Rightarrow> Inl ValueError | Some se \<Rightarrow>
        case digits_value (drop 1 G) 0 of None \<Rightarrow> Inl ValueError | Some us \<Rightarrow>
          (let dt = \<lparr>year = y, month = m, day = d, hour = h, minute = mi, second = se,
                     microsecond = us\<rparr>
           in if valid_datetime dt then Inr dt else Inl ValueError))"
proof -
  let ?s = "A @ [45] @ B @ [45] @ C @ [84] @ D @ [58] @ E @ [58] @ F @ G"
  have f1: "take 4 ?s = A" using assms by simp
  have f2: "take 2 (drop 5 ?s) = B" using assms by simp
  have f3: "take 2 (drop 8 ?s) = C" using assms by simp
  have f4: "take 2 (drop 11 ?s) = D" using assms by simp
  have f5: "take 2 (drop 14 ?s) = E" using assms by simp
  have f6: "take 2 (drop 17 ?s) = F" using assms by simp
  have f7: "drop 20 ?s = drop 1 G" using assms by auto
  have c: "((length ?s = 19 \<or> (length ?s = 26 \<and> ?s ! 19 = 46))
         \<and> ?s ! 4 = 45 \<and> ?s ! 7 = 45 \<and> ?s ! 10 = 84 \<and> ?s ! 13 = 58 \<and> ?s ! 16 = 58) = True"
    using assms by (auto simp: nth_append)
  show ?thesis
    unfolding fromisoformat_canonical_def f1 f2 f3 f4 f5 f6 f7 c by simp
qed

lemma valid_datetime_bounds:
  assumes "valid_datetime d"
  shows "year d < 10 ^ 4" "month d < 10 ^ 2" "day d < 10 ^ 2" "hour d < 10 ^ 2"
    "minute d < 10 ^ 2" "second d < 10 ^ 2" "microsecond d < 10 ^ 6"
  using assms by (auto simp: valid_datetime_def days_in_month_def split: if_splits)

lemma fromisoformat_canonical_isoformat:
  assumes "valid_datetime d"
  shows "fromisoformat_canonical (isoformat d) = Inr d"
proof -
  let ?G = "if microsecond d = 0 then [] else [46] @ dec_digits 6 (microsecond d)"
  have g: "?G = [] \<or> (\<exists>U. ?G = 46 # U \<and> length U = 6)"
    by (simp add: length_dec_digits)
  have us: "digits_value (drop 1 ?G) 0 = Some (microsecond d)"
    using valid_datetime_bounds(7) [OF assms] by (simp add: digits_value_field)
  have r: "\<lparr>year = year d, month = month d, day = day d, hour = hour d, minute = minute d,
             second = second d, microsecond = microsecond d\<rparr> = d"
    by simp
  have fields:
    "digits_value (dec_digits 4 (year d)) 0 = Some (year d)"
    "digits_value (dec_digits 2 (month d)) 0 = Some (month d)"
    "digits_value (dec_digits 2 (day d)) 0 = Some (day d)"
    "digits_value (dec_digits 2 (hour d)) 0 = Some (hour d)"
    "digits_value (dec_digits 2 (minute d)) 0 = Some (minute d)"
    "digits_value (dec_digits 2 (second d)) 0 = Some (second d)"
    using valid_datetime_bounds [OF assms] by (simp_all add: digits_value_field)
  have "fromisoformat_canonical
          (dec_digits 4 (year d) @ [45] @ dec_digits 2 (month d) @ [45] @ dec_digits 2 (day d)
           @ [84] @ dec_digits 2 (hour d) @ [58] @ dec_digits 2 (minute d) @ [58]
           @ dec_digits 2 (second d) @ ?G) = Inr d"
    unfolding parse_layout [OF length_dec_digits length_dec_digits length_dec_digits
                length_dec_digits length_dec_digits length_dec_digits g] fields us
    using assms by (simp add: r)
  then show ?thesis by (simp only: isoformat_def)
qed

section \<open>Saving and loading the notes\<close>

lemma note_keys_distinct:
  "k_title \<noteq> k_content" "k_title \<noteq> k_created" "k_title \<noteq> k_updated" "k_title \<noteq> k_read_only"
  "k_content \<noteq> k_title" "k_content \<noteq> k_created" "k_content \<noteq> k_updated"
  "k_content \<noteq> k_read_only"
  "k_created \<noteq> k_title" "k_created \<noteq> k_content" "k_created \<noteq> k_updated"
  "k_created \<noteq> k_read_only"
  "k_updated \<noteq> k_title" "k_updated \<noteq> k_content" "k_updated \<noteq> k_created"
  "k_updated \<noteq> k_read_only"
  "k_read_only \<noteq> k_title" "k_read_only \<noteq> k_content" "k_read_only \<noteq> k_created"
  "k_read_only \<noteq> k_updated"
  by (simp_all add: k_title_def k_content_def k_created_def k_updated_def k_read_only_def py_def)

lemma load_note_saved:
  assumes "fromisoformat L (isoformat (created n)) = Inr (created n)"
    and "fromisoformat L (isoformat (updated n)) = Inr (updated n)"
  shows "load_note L (note_to_json n) = Inr n"
  using assms by (simp add: load_note_def note_to_json_def bnd_def note_keys_distinct)

lemma load_notes_loop_saved:
  assumes "\<forall>n \<in> set ns. fromisoformat L (isoformat (created n)) = Inr (created n)
                       \<and> fromisoformat L (isoformat (updated n)) = Inr (updated n)"
  shows "load_notes_loop L (map note_to_json ns) acc = Inr (acc @ ns)"
  using assms
proof (induction ns arbitrary: acc)
  case Nil
  then show ?case by simp
next
  case (Cons n ns)
  then show ?case by (simp add: load_note_saved bnd_def)
qed

lemma valid_demo_time: "valid_datetime demo_time" "valid_datetime (demo_time\<lparr>microsecond := 250\<rparr>)"
  by (simp_all add: valid_datetime_def demo_time_def days_in_month_def is_leap_def)

text \<open>
  C8. For every list of notes whose timestamps \<open>fromisoformat\<close> reads back from their
  \<open>isoformat\<close> text (as it does for every datetime that \<open>isoformat\<close> can print), loading the
  file that \<open>save_notes_to_file\<close> wrote returns the same list: the same notes in the same
  order, each with the title, content, created, updated and read_only it had. Saving the
  loaded list again writes the same document, so every stored timestamp is written as the
  text it was read from.
\<close>

theorem save_load_notes:
  assumes "\<forall>n \<in> set (notes st). fromisoformat L (isoformat (created n)) = Inr (created n)
                       \<and> fromisoformat L (isoformat (updated n)) = Inr (updated n)"
  shows "load_notes_from_file L (notes_file (save_notes_to_file st)) = Inr (notes st)
         \<and> (\<forall>ns st'. load_notes_from_file L (notes_file (save_notes_to_file st)) = Inr ns \<longrightarrow>
               notes_file (save_notes_to_file (st'\<lparr>notes := ns\<rparr>))
                 = notes_file (save_notes_to_file st))"
proof -
  have "load_notes_from_file L (notes_file (save_notes_to_file st)) = Inr (notes st)"
    using load_notes_loop_saved [OF assms, of "[]"]
    by (simp add: save_notes_to_file_def bnd_def)
  then show ?thesis by (simp add: save_notes_to_file_def)
qed



lemma iso_demo:
  "fromisoformat demo_lib (isoformat (created demo_note)) = Inr (created demo_note)"
  "fromisoformat demo_lib (isoformat (updated demo_note)) = Inr (updated demo_note)"
proof -
  have f: "fromisoformat demo_lib = fromisoformat_canonical" by (simp add: demo_lib_def)
  have c: "created demo_note = demo_time" "updated demo_note = demo_time\<lparr>microsecond := 250\<rparr>"
    by (simp_all add: demo_note_def)
  show "fromisoformat demo_lib (isoformat (created demo_note)) = Inr (created demo_note)"
    unfolding f c by (rule fromisoformat_canonical_isoformat [OF valid_demo_time(1)])
  show "fromisoformat demo_lib (isoformat (updated demo_note)) = Inr (updated demo_note)"
    unfolding f c by (rule fromisoformat_canonical_isoformat [OF valid_demo_time(2)])
qed


theorem save_load_notes_witness:
  "fromisoformat demo_lib (isoformat (created demo_note)) = Inr (created demo_note)
   \<and> fromisoformat demo_lib (isoformat (updated demo_note)) = Inr (updated demo_note)
   \<and> load_notes_from_file demo_lib
        (notes_file (save_notes_to_file
           (demo_app\<lparr>notes := [demo_note, demo_note\<lparr>read_only := JBool False\<rparr>]\<rparr>)))
      = Inr [demo_note, demo_note\<lparr>read_only := JBool False\<rparr>]"
proof -
  let ?st = "demo_app\<lparr>notes := [demo_note, demo_note\<lparr>read_only := JBool False\<rparr>]\<rparr>"
  have prem: "\<forall>n \<in> set (notes ?st).
                fromisoformat demo_lib (isoformat (created n)) = Inr (created n)
                \<and> fromisoformat demo_lib (isoformat (updated n)) = Inr (updated n)"
    using iso_demo by simp
  have res: "load_notes_from_file demo_lib (notes_file (save_notes_to_file ?st))
               = Inr (notes ?st)"
    by (rule save_load_notes [OF prem, THEN conjunct1])
  have n: "notes ?st = [demo_note, demo_note\<lparr>read_only := JBool False\<rparr>]" by simp
  show ?thesis
    by (intro conjI) (rule iso_demo(1), rule iso_demo(2), rule res [unfolded n])
qed

section \<open>Loading a notes file with a malformed record\<close>







end
